theory Spec2Isabelle
  imports Main "HOL-Library.Word"
begin

section \<open>imagemin-cli: the dispatcher of \<open>cli.js\<close>\<close>

text \<open>
  The program resolves a list of plugin names, hands its input (a buffer read from
  standard input, or a list of paths and globs) to the \<open>imagemin\<close> library and routes
  what comes back to standard output or to files. This theory embeds \<open>requirePlugins\<close>,
  \<open>run\<close>, \<open>runSingle\<close> and the top level of \<open>cli.js\<close> as functions on an explicit
  world: the file system, the two output streams, the exit status, the spinner, the
  log of \<open>imagemin\<close> invocations and the rejections nobody handled.
\<close>

subsection \<open>Values\<close>

type_synonym bytes = "8 word list"

text \<open>
  An error object: a plain failure with its message, a \<open>TypeError\<close>, or a failure
  that the batch call has tagged with the file it happened in.
\<close>

datatype err = Failure string | TypeError string | InFile string err

text \<open>A plugin is a fallible function on bytes.\<close>

type_synonym plugin = "bytes \<Rightarrow> err + bytes"

text \<open>
  The JavaScript values that reach the aggregation step: \<open>undefined\<close> and arrays.
\<close>

datatype jsval = Undefined | Array "jsval list"

text \<open>The value a promise has when it is looked at: \<open>Pending\<close> is a promise whose
  callback ended the process, so that it never settles.\<close>

datatype 'a settled = Fulfilled 'a | Rejected err | Pending

text \<open>What has been written to standard output: raw buffers
  (\<open>process.stdout.write\<close>) and lines of text (\<open>console.log\<close>).\<close>

datatype chunk = Raw bytes | Text string

datatype entry = File bytes | Dir

type_synonym fsys = "(string \<times> entry) list"

record jsfile =
  file_data :: bytes
  file_path :: "string option"

text \<open>The value of the \<open>plugin\<close> flag: one string, or an array of strings when the
  flag is repeated.\<close>

datatype plugin_value = PStr string | PArr "string list"

record opts =
  plugin :: "plugin_value option"
  outDir :: "string option"
  write_flag :: bool

record world =
  fs :: fsys
  stdout :: "chunk list"
  stderr :: "string list"
  exit_code :: "nat option"
  spinner :: bool
  calls :: "(string list \<times> string option) list"
  unhandled :: "err list"

text \<open>
  What the program does not define itself: \<open>registry x\<close> is what
  \<open>require('imagemin-' + x)()\<close> evaluates to (\<open>None\<close> when it throws),
  \<open>matches pat p\<close> says whether the glob library lets pattern \<open>pat\<close> select path \<open>p\<close>,
  and \<open>stack_of err\<close> is the text of the stack trace that the runtime prints for the
  error \<open>err\<close>.
\<close>

record env =
  registry :: "string \<Rightarrow> plugin option"
  matches :: "string \<Rightarrow> string \<Rightarrow> bool"
  stack_of :: "err \<Rightarrow> string"

datatype input = Buffer bytes | Paths "string list"

subsection \<open>JavaScript and Node.js primitives\<close>

text \<open>A string option is falsy when it is \<open>undefined\<close> or the empty string.\<close>

fun truthy :: "string option \<Rightarrow> bool" where
  "truthy None = False"
| "truthy (Some s) = (s \<noteq> [])"

definition nl :: char where
  "nl = CHR 0x0A"

definition slash :: char where
  "slash = CHR ''/''"

text \<open>\<open>path.dirname\<close> of the POSIX \<open>path\<close> module: trailing slashes are skipped,
  the index of the last remaining slash (searched from index 1 on) ends the result.\<close>

definition dirname :: "string \<Rightarrow> string" where
  "dirname p =
     (case p of
        [] \<Rightarrow> ''.''
      | c # cs \<Rightarrow>
          (let stripped = rev (dropWhile (\<lambda>x. x = slash) (rev cs)) in
           if slash \<notin> set stripped then (if c = slash then ''/'' else ''.'')
           else
             (let front = rev (tl (dropWhile (\<lambda>x. x \<noteq> slash) (rev stripped))) in
              if c = slash \<and> front = [] then ''//'' else c # front)))"

text \<open>\<open>path.basename\<close>: the last segment, trailing slashes ignored.\<close>

definition basename :: "string \<Rightarrow> string" where
  "basename p = rev (takeWhile (\<lambda>x. x \<noteq> slash) (dropWhile (\<lambda>x. x = slash) (rev p)))"

fun split_slash :: "string \<Rightarrow> string list" where
  "split_slash [] = [[]]"
| "split_slash (c # cs) =
     (if c = slash then [] # split_slash cs
      else (case split_slash cs of [] \<Rightarrow> [[c]] | s # ss \<Rightarrow> (c # s) # ss))"

fun join_slash :: "string list \<Rightarrow> string" where
  "join_slash [] = []"
| "join_slash [s] = s"
| "join_slash (s # ss) = s @ slash # join_slash ss"

text \<open>One step of \<open>normalizeString\<close>: empty and \<open>.\<close> segments vanish, \<open>..\<close> removes
  the segment before it, or stays when the path is relative and nothing is left to
  remove.\<close>

definition norm_step :: "bool \<Rightarrow> string list \<Rightarrow> string \<Rightarrow> string list" where
  "norm_step allow_above acc seg =
     (if seg = [] \<or> seg = ''.'' then acc
      else if seg = ''..'' then
        (if acc \<noteq> [] \<and> last acc \<noteq> ''..'' then butlast acc
         else if allow_above then acc @ [seg] else acc)
      else acc @ [seg])"

definition normalize :: "string \<Rightarrow> string" where
  "normalize p =
     (if p = [] then ''.''
      else
        (let is_abs = (hd p = slash);
             trailing = (last p = slash);
             s = join_slash (foldl (norm_step (\<not> is_abs)) [] (split_slash p));
             s1 = (if s = [] \<and> \<not> is_abs then ''.'' else s);
             s2 = (if s1 \<noteq> [] \<and> trailing then s1 @ [slash] else s1)
         in if is_abs then slash # s2 else s2))"

text \<open>\<open>path.join\<close> of two arguments.\<close>

definition path_join :: "string \<Rightarrow> string \<Rightarrow> string" where
  "path_join a b =
     (if a = [] \<and> b = [] then ''.''
      else normalize (if a = [] then b else if b = [] then a else a @ slash # b))"

text \<open>A relative path as the glob library returns it: segments separated by single
  slashes, none of them empty, \<open>.\<close> or \<open>..\<close>.\<close>

definition plain_path :: "string \<Rightarrow> bool" where
  "plain_path x = list_all (\<lambda>s. s \<noteq> [] \<and> s \<noteq> ''.'' \<and> s \<noteq> ''..'') (split_slash x)"

text \<open>\<open>arrify\<close> on the value of the flag.\<close>

fun arrify :: "plugin_value \<Rightarrow> string list" where
  "arrify (PStr s) = [s]"
| "arrify (PArr xs) = xs"

text \<open>\<open>plur(word, count)\<close> for a regular noun.\<close>

definition plur :: "string \<Rightarrow> nat \<Rightarrow> string" where
  "plur w n = (if n = 1 then w else w @ ''s'')"

definition digit :: "nat \<Rightarrow> char" where
  "digit d = ''0123456789'' ! d"

fun show_nat :: "nat \<Rightarrow> string" where
  "show_nat n = (if n < 10 then [digit n] else show_nat (n div 10) @ [digit (n mod 10)])"

declare show_nat.simps [simp del]

subsection \<open>The file system and the glob library\<close>

definition read_file :: "fsys \<Rightarrow> string \<Rightarrow> bytes option" where
  "read_file f p = (case map_of f p of Some (File d) \<Rightarrow> Some d | _ \<Rightarrow> None)"

definition write_file :: "string \<times> bytes \<Rightarrow> fsys \<Rightarrow> fsys" where
  "write_file pd f = (fst pd, File (snd pd)) # f"

definition apply_writes :: "(string \<times> bytes) list \<Rightarrow> fsys \<Rightarrow> fsys" where
  "apply_writes ws f = foldl (\<lambda>g pd. write_file pd g) f ws"

text \<open>The paths of the regular files, each once, in the order of the listing.\<close>

definition file_paths :: "fsys \<Rightarrow> string list" where
  "file_paths f = filter (\<lambda>p. read_file f p \<noteq> None) (remdups (map fst f))"

text \<open>
  Modelled from the spec: the glob library is not part of \<open>cli.js\<close>; the specification
  gives it as the capability that expands patterns to an ordered set of concrete paths
  of existing files, directories excluded. So \<open>globby(patterns, {nodir: true})\<close> is,
  for every pattern, the files it selects, directories left out, the union without
  duplicates. What a pattern selects is left to \<open>matches\<close>.
\<close>

definition globby :: "env \<Rightarrow> string list \<Rightarrow> fsys \<Rightarrow> string list" where
  "globby e pats f = remdups (concat (map (\<lambda>pat. filter (matches e pat) (file_paths f)) pats))"

subsection \<open>The plugin resolver\<close>

definition DEFAULT_PLUGINS :: "string list" where
  "DEFAULT_PLUGINS = [''gifsicle'', ''jpegtran'', ''optipng'', ''svgo'']"

text \<open>
  The diagnostic is \<open>stripIndent(template).trim()\<close>. Strings are taken as sequences of
  code units below 256. White space is what the pattern \<open>\S\<close> excludes and \<open>trim\<close>
  removes; a line ends at a line feed or a carriage return.
\<close>

definition is_blank :: "char \<Rightarrow> bool" where
  "is_blank c = (c = CHR '' '' \<or> c = CHR 0x09)"

definition is_terminator :: "char \<Rightarrow> bool" where
  "is_terminator c = (c = CHR 0x0A \<or> c = CHR 0x0D)"

definition is_space :: "char \<Rightarrow> bool" where
  "is_space c = (c = CHR '' '' \<or> c = CHR 0x09 \<or> c = CHR 0x0A \<or> c = CHR 0x0B \<or>
                 c = CHR 0x0C \<or> c = CHR 0x0D \<or> c = CHR 0xA0)"

text \<open>The lines of a string, each with the terminator that ends it: the places
  where \<open>^\<close> matches under the flag \<open>m\<close> are the starts of these.\<close>

fun lines_of :: "string \<Rightarrow> string list" where
  "lines_of [] = [[]]"
| "lines_of (c # cs) =
     (if is_terminator c then [c] # lines_of cs
      else (case lines_of cs of [] \<Rightarrow> [[c]] | l # ls \<Rightarrow> (c # l) # ls))"

text \<open>A match of \<open>/^[ \t]*(?=\S)/\<close> at the start of a line: the length of the run of
  blanks and tabs, when a character that is not white space follows it.\<close>

definition indent_of :: "string \<Rightarrow> nat option" where
  "indent_of l =
     (case dropWhile is_blank l of
        [] \<Rightarrow> None
      | c # r \<Rightarrow> if is_space c then None else Some (length (takeWhile is_blank l)))"

fun indents :: "string list \<Rightarrow> nat list" where
  "indents [] = []"
| "indents (l # ls) = (case indent_of l of None \<Rightarrow> indents ls | Some n \<Rightarrow> n # indents ls)"

text \<open>\<open>stripIndent(str)\<close>: without a match, or with the smallest indentation 0, the
  string itself; otherwise every line that starts with that many blanks or tabs loses
  them.\<close>

definition strip_indent :: "string \<Rightarrow> string" where
  "strip_indent s =
     (case indents (lines_of s) of
        [] \<Rightarrow> s
      | n # ns \<Rightarrow>
          (let indent = fold min ns n in
           if indent > 0 then
             concat (map (\<lambda>l. if indent \<le> length (takeWhile is_blank l) then drop indent l else l)
                         (lines_of s))
           else s))"

definition trim :: "string \<Rightarrow> string" where
  "trim s = rev (dropWhile is_space (rev (dropWhile is_space s)))"

definition tab :: char where
  "tab = CHR 0x09"

text \<open>The template literal of \<open>requirePlugins\<close>, with the indentation it has in
  \<open>cli.js\<close>: three tabs before each line of text, two before the closing quote.\<close>

definition template :: "string \<Rightarrow> string" where
  "template x =
     [nl, tab, tab, tab] @ ''Unknown plugin: '' @ x @ [nl, nl, tab, tab, tab] @
     ''Did you forget to install the plugin?'' @ [nl, tab, tab, tab] @
     ''You can install it with:'' @ [nl, nl, tab, tab, tab] @
     ''  $ npm install -g imagemin-'' @ x @ [nl, tab, tab]"

definition unknown_plugin :: "string \<Rightarrow> string" where
  "unknown_plugin x = trim (strip_indent (template x))"

text \<open>\<open>process.exit(code)\<close> ends the process: nothing runs after it.\<close>

definition process_exit :: "nat \<Rightarrow> world \<Rightarrow> world" where
  "process_exit c w = w\<lparr>exit_code := Some c\<rparr>"

definition console_error :: "string \<Rightarrow> world \<Rightarrow> world" where
  "console_error s w = w\<lparr>stderr := stderr w @ [s]\<rparr>"

definition console_log :: "string \<Rightarrow> world \<Rightarrow> world" where
  "console_log s w = w\<lparr>stdout := stdout w @ [Text s]\<rparr>"

definition stdout_write :: "bytes \<Rightarrow> world \<Rightarrow> world" where
  "stdout_write b w = w\<lparr>stdout := stdout w @ [Raw b]\<rparr>"

text \<open>\<open>requirePlugins\<close>: the names are mapped in order; the first one that cannot be
  loaded is reported and ends the process (\<open>None\<close>), so no later name is looked at.\<close>

fun requirePlugins :: "env \<Rightarrow> string list \<Rightarrow> world \<Rightarrow> plugin list option \<times> world" where
  "requirePlugins e [] w = (Some [], w)"
| "requirePlugins e (x # xs) w =
     (case registry e x of
        None \<Rightarrow> (None, process_exit 1 (console_error (unknown_plugin x) w))
      | Some p \<Rightarrow>
          (case requirePlugins e xs w of
             (None, w') \<Rightarrow> (None, w')
           | (Some ps, w') \<Rightarrow> (Some (p # ps), w')))"

text \<open>\<open>Object.assign({plugin: DEFAULT_PLUGINS}, opts)\<close> followed by \<open>arrify\<close>: the
  default list stands in only when the flag is absent.\<close>

definition plugin_names :: "opts \<Rightarrow> string list" where
  "plugin_names os = arrify (case plugin os of None \<Rightarrow> PArr DEFAULT_PLUGINS | Some v \<Rightarrow> v)"

subsection \<open>The batch call\<close>

text \<open>The chain of plugins: each one is fed the output of the one before it, and the
  first failure ends the chain.\<close>

fun pipe :: "plugin list \<Rightarrow> bytes \<Rightarrow> err + bytes" where
  "pipe [] b = Inr b"
| "pipe (p # ps) b = (case p b of Inl e \<Rightarrow> Inl e | Inr b' \<Rightarrow> pipe ps b')"

text \<open>
  Modelled from the spec: the library call \<open>imagemin(input, output, {use})\<close> and its
  \<open>imagemin.buffer(input, {use})\<close> are not part of \<open>cli.js\<close>. They are the Transform
  Runner of the specification together with the delivery to a destination path: the
  input patterns are expanded to files, each file is read and sent through the chain, a
  failure carries the error and the item it belongs to, and a success carries the bytes
  and, when a destination directory is given, the path under it, to which the bytes are
  written. The call as a whole fails when an item fails; the other items are processed
  all the same. The second component of the result are the writes the call performs.
\<close>

definition destination :: "string option \<Rightarrow> string \<Rightarrow> string option" where
  "destination output x =
     (case output of
        None \<Rightarrow> None
      | Some dir \<Rightarrow> if dir = [] then None else Some (path_join dir (basename x)))"

definition handleFile :: "plugin list \<Rightarrow> string option \<Rightarrow> fsys \<Rightarrow> string \<Rightarrow> err + jsfile" where
  "handleFile use output f x =
     (case read_file f x of
        None \<Rightarrow> Inl (Failure ''ENOENT'')
      | Some d \<Rightarrow>
          (case pipe use d of
             Inl e \<Rightarrow> Inl (InFile x e)
           | Inr buf \<Rightarrow> Inr \<lparr>file_data = buf, file_path = destination output x\<rparr>))"

fun first_error :: "(err + 'a) list \<Rightarrow> err option" where
  "first_error [] = None"
| "first_error (Inl e # rs) = Some e"
| "first_error (Inr a # rs) = first_error rs"

fun successes :: "(err + 'a) list \<Rightarrow> 'a list" where
  "successes [] = []"
| "successes (Inl e # rs) = successes rs"
| "successes (Inr a # rs) = a # successes rs"

definition file_writes :: "jsfile list \<Rightarrow> (string \<times> bytes) list" where
  "file_writes fl =
     concat (map (\<lambda>r. case file_path r of None \<Rightarrow> [] | Some p \<Rightarrow> [(p, file_data r)]) fl)"

definition imagemin ::
  "env \<Rightarrow> string list \<Rightarrow> string option \<Rightarrow> plugin list \<Rightarrow> fsys
     \<Rightarrow> jsfile list settled \<times> (string \<times> bytes) list" where
  "imagemin e inp output use f =
     (let rs = map (handleFile use output f) (globby e inp f) in
      (case first_error rs of Some err \<Rightarrow> Rejected err | None \<Rightarrow> Fulfilled (successes rs),
       file_writes (successes rs)))"

definition imagemin_buffer :: "plugin list \<Rightarrow> bytes \<Rightarrow> bytes settled" where
  "imagemin_buffer use b = (case pipe use b of Inl e \<Rightarrow> Rejected e | Inr b' \<Rightarrow> Fulfilled b')"

subsection \<open>Promises\<close>

text \<open>
  A promise that has been created and not yet settled is what will happen when it
  settles: a function from the world at that moment to the settled value and the world
  after its callbacks have run. The input/output a call starts is decided on the file
  system the call sees when it is made; its writes land when it settles. Promises settle
  in the order of their creation, and the callbacks of one promise run before the next
  promise settles. A rejection that no handler takes is recorded in \<open>unhandled\<close> and
  the process goes on; what becomes of it is settled when the process ends.
\<close>

type_synonym 'a promise = "world \<Rightarrow> 'a settled \<times> world"

text \<open>An array mapped with a function that has effects.\<close>

fun dispatch_all :: "('a \<Rightarrow> world \<Rightarrow> 'b \<times> world) \<Rightarrow> 'a list \<Rightarrow> world \<Rightarrow> 'b list \<times> world" where
  "dispatch_all g [] w = ([], w)"
| "dispatch_all g (x # xs) w =
     (case g x w of (p, w1) \<Rightarrow>
        (case dispatch_all g xs w1 of (ps, w2) \<Rightarrow> (p # ps, w2)))"

text \<open>The promises settle one after the other; once a callback has ended the
  process the remaining ones never settle.\<close>

fun settle_all :: "'a promise list \<Rightarrow> world \<Rightarrow> 'a settled list \<times> world" where
  "settle_all [] w = ([], w)"
| "settle_all (p # ps) w =
     (case p w of (r, w1) \<Rightarrow>
        if exit_code w1 \<noteq> None then (r # map (\<lambda>q. Pending) ps, w1)
        else (case settle_all ps w1 of (rs, w2) \<Rightarrow> (r # rs, w2)))"

text \<open>\<open>Promise.all\<close>: the array of the values, or the first rejection.\<close>

fun promise_all :: "'a settled list \<Rightarrow> 'a list settled" where
  "promise_all [] = Fulfilled []"
| "promise_all (Rejected e # rs) = Rejected e"
| "promise_all (Pending # rs) = (case promise_all rs of Rejected e \<Rightarrow> Rejected e | _ \<Rightarrow> Pending)"
| "promise_all (Fulfilled v # rs) =
     (case promise_all rs of
        Fulfilled vs \<Rightarrow> Fulfilled (v # vs)
      | Rejected e \<Rightarrow> Rejected e
      | Pending \<Rightarrow> Pending)"

text \<open>\<open>.then(f)\<close> with a callback that only computes a value.\<close>

fun then_value :: "('a \<Rightarrow> 'b) \<Rightarrow> 'a settled \<Rightarrow> 'b settled" where
  "then_value g (Fulfilled v) = Fulfilled (g v)"
| "then_value g (Rejected e) = Rejected e"
| "then_value g Pending = Pending"

subsection \<open>\<open>runSingle\<close>\<close>

definition multiple_files :: string where
  "multiple_files = ''Cannot write multiple files to stdout, specify a `--out-dir`''"

text \<open>The callback \<open>files => {...}\<close> of \<open>runSingle\<close>. Every path through it returns
  \<open>undefined\<close>, or ends the process.\<close>

definition runSingle_then :: "opts \<Rightarrow> jsfile list \<Rightarrow> world \<Rightarrow> jsval settled \<times> world" where
  "runSingle_then os files w =
     (if \<not> truthy (outDir os) \<and> length files = 0 then (Fulfilled Undefined, w)
      else if \<not> truthy (outDir os) \<and> length files > 1 then
        (Pending, process_exit 1 (console_error multiple_files w))
      else if \<not> truthy (outDir os) then
        (case files of
           [] \<Rightarrow> (Rejected (TypeError ''Cannot read property 'data' of undefined''), w)
         | f0 # rest \<Rightarrow> (Fulfilled Undefined, stdout_write (file_data f0) w))
      else (Fulfilled Undefined, w))"

text \<open>What happens when the promise of \<open>runSingle\<close> settles: the writes of the
  batch call land, then the callback runs on its files, or the rejection is passed on.\<close>

definition runSingle_settle ::
  "opts \<Rightarrow> jsfile list settled \<Rightarrow> (string \<times> bytes) list \<Rightarrow> jsval promise" where
  "runSingle_settle os res writes w =
     (let w1 = w\<lparr>fs := apply_writes writes (fs w)\<rparr> in
      case res of
        Fulfilled files \<Rightarrow> runSingle_then os files w1
      | Rejected err \<Rightarrow> (Rejected err, w1)
      | Pending \<Rightarrow> (Pending, w1))"

text \<open>\<open>runSingle(input, opts)\<close>: the batch call is made at once, on the plugins \<open>use\<close>
  of the enclosing \<open>run\<close>, and recorded in the log of calls.\<close>

definition runSingle ::
  "env \<Rightarrow> plugin list \<Rightarrow> string list \<Rightarrow> opts \<Rightarrow> world \<Rightarrow> jsval promise \<times> world" where
  "runSingle e use inp os w =
     (case imagemin e inp (outDir os) use (fs w) of
        (res, writes) \<Rightarrow>
          (runSingle_settle os res writes, w\<lparr>calls := calls w @ [(inp, outDir os)]\<rparr>))"

subsection \<open>\<open>run\<close> and the top level\<close>

text \<open>The handler \<open>.catch(err => { spinner.stop(); throw err; })\<close>: the promise it
  returns is rejected and has no handler.\<close>

definition catch_rethrow :: "err \<Rightarrow> world \<Rightarrow> world" where
  "catch_rethrow err w = w\<lparr>spinner := False, unhandled := unhandled w @ [err]\<rparr>"

text \<open>A promise that nobody listens to: when it is rejected, the rejection is
  unhandled.\<close>

definition drop_promise :: "'a settled \<Rightarrow> world \<Rightarrow> world" where
  "drop_promise r w = (case r of Rejected err \<Rightarrow> w\<lparr>unhandled := unhandled w @ [err]\<rparr> | _ \<Rightarrow> w)"

definition length_of_undefined :: err where
  "length_of_undefined = TypeError ''Cannot read property 'length' of undefined''"

definition summary :: "nat \<Rightarrow> string" where
  "summary n = show_nat n @ '' '' @ plur ''image'' n @ '' minified''"

text \<open>The two handlers on \<open>runAll\<close>: the first stops the spinner and prints the
  summary, which needs \<open>results.length\<close>; whatever is thrown there or before reaches the
  second.\<close>

definition aggregate :: "jsval settled \<Rightarrow> world \<Rightarrow> world" where
  "aggregate r w =
     (case r of
        Fulfilled results \<Rightarrow>
          (case results of
             Array xs \<Rightarrow> console_log (summary (length xs)) (w\<lparr>spinner := False\<rparr>)
           | Undefined \<Rightarrow> catch_rethrow length_of_undefined (w\<lparr>spinner := False\<rparr>))
      | Rejected err \<Rightarrow> catch_rethrow err w
      | Pending \<Rightarrow> w)"

text \<open>\<open>Array.isArray(results) ? results : [results]\<close>.\<close>

fun arrayify :: "jsval \<Rightarrow> jsval" where
  "arrayify (Array xs) = Array xs"
| "arrayify Undefined = Array [Undefined]"

text \<open>The options \<open>{outDir: path.dirname(x)}\<close> of the calls in write-in-place mode.\<close>

definition in_place :: "string \<Rightarrow> opts" where
  "in_place x = \<lparr>plugin = None, outDir = Some (dirname x), write_flag = False\<rparr>"

text \<open>
  \<open>run(input, opts)\<close>. For a buffer the chain's output is written to standard output,
  and a failure of the chain is a rejection without a handler. With write-in-place off the conditional expression that builds
  \<open>runAll\<close> is just \<open>runSingle(input, opts)\<close>: the \<open>.then\<close> that turns a result into
  an array belongs to the other branch. The statement after the handlers calls
  \<open>runSingle(input, opts)\<close> once more and drops its promise.
\<close>

definition run :: "env \<Rightarrow> input \<Rightarrow> opts \<Rightarrow> world \<Rightarrow> world" where
  "run e inp os w =
     (case requirePlugins e (plugin_names os) w of
        (None, w0) \<Rightarrow> w0
      | (Some use, w0) \<Rightarrow>
          (case inp of
             Buffer b \<Rightarrow>
               (case imagemin_buffer use b of
                  Fulfilled buf \<Rightarrow> stdout_write buf w0
                | Rejected err \<Rightarrow> w0\<lparr>unhandled := unhandled w0 @ [err]\<rparr>
                | Pending \<Rightarrow> w0)
           | Paths ps \<Rightarrow>
               (let w1 = (if truthy (outDir os) \<or> write_flag os then w0\<lparr>spinner := True\<rparr> else w0) in
                if \<not> write_flag os then
                  (case runSingle e use ps os w1 of (runAll, w2) \<Rightarrow>
                   case runSingle e use ps os w2 of (again, w3) \<Rightarrow>
                   case runAll w3 of (r, w4) \<Rightarrow>
                     (let w5 = aggregate r w4 in
                      if exit_code w5 \<noteq> None then w5
                      else (case again w5 of (r2, w6) \<Rightarrow> drop_promise r2 w6)))
                else
                  (case dispatch_all (\<lambda>x. runSingle e use [x] (in_place x))
                          (globby e ps (fs w1)) w1 of (proms, w2) \<Rightarrow>
                   case settle_all proms w2 of (rs, w3) \<Rightarrow>
                     if exit_code w3 \<noteq> None then w3
                     else aggregate (then_value arrayify (then_value Array (promise_all rs))) w3))))"

text \<open>The top level: \<open>cli.input\<close>, \<open>cli.flags\<close>, \<open>process.stdin.isTTY\<close> and the
  bytes that \<open>getStdin.buffer()\<close> yields.\<close>

definition main :: "env \<Rightarrow> string list \<Rightarrow> opts \<Rightarrow> bool \<Rightarrow> bytes \<Rightarrow> world \<Rightarrow> world" where
  "main e cli_input flags isTTY stdin w =
     (if length cli_input = 0 \<and> isTTY then
        process_exit 1 (console_error ''Specify at least one filename'' w)
      else if length cli_input \<noteq> 0 then run e (Paths cli_input) flags w
      else run e (Buffer stdin) flags w)"

subsection \<open>Observations\<close>

text \<open>The world in which the process starts.\<close>

definition start :: "fsys \<Rightarrow> world" where
  "start f = \<lparr>fs = f, stdout = [], stderr = [], exit_code = None, spinner = False,
              calls = [], unhandled = []\<rparr>"

text \<open>
  Modelled from the spec: what becomes of a rejection that no handler has taken is not
  in \<open>cli.js\<close>. The specification has it surfaced as an unhandled failure, with the
  stack trace on standard error and a non-zero exit: when the process ends, the stack
  of every such rejection is printed and the exit status is 1.
\<close>

definition at_exit :: "env \<Rightarrow> world \<Rightarrow> world" where
  "at_exit e w =
     (if unhandled w = [] then w
      else w\<lparr>stderr := stderr w @ map (stack_of e) (unhandled w), exit_code := Some 1\<rparr>)"

text \<open>The exit status: 1 when a rejection is left unhandled, otherwise the argument of
  \<open>process.exit\<close>, and 0 when the program runs to its end.\<close>

definition exit_status :: "world \<Rightarrow> nat" where
  "exit_status w =
     (if unhandled w \<noteq> [] then 1 else (case exit_code w of Some c \<Rightarrow> c | None \<Rightarrow> 0))"

fun chunk_bytes :: "chunk \<Rightarrow> bytes" where
  "chunk_bytes (Raw b) = b"
| "chunk_bytes (Text s) = map of_char s @ [of_char nl]"

definition stdout_bytes :: "world \<Rightarrow> bytes" where
  "stdout_bytes w = concat (map chunk_bytes (stdout w))"

subsection \<open>A small installation\<close>

text \<open>Three plugins, a registry that knows them under the default names and two
  more, a glob library that knows three patterns and takes every other pattern
  literally, a runtime whose stack traces are their first line, and a file system with
  four files and two directories.\<close>

definition identity_plugin :: plugin where
  "identity_plugin b = Inr b"

definition increment :: plugin where
  "increment b = Inr (map (\<lambda>x. x + 1) b)"

definition rejects_empty :: plugin where
  "rejects_empty b = (if b = [] then Inl (Failure ''empty input'') else Inr b)"

fun first_line :: "err \<Rightarrow> string" where
  "first_line (Failure m) = ''Error: '' @ m"
| "first_line (TypeError m) = ''TypeError: '' @ m"
| "first_line (InFile x err) = first_line err"

definition demo_env :: env where
  "demo_env =
     \<lparr>registry = (\<lambda>x. if x = ''increment'' then Some increment
                      else if x = ''strict'' then Some rejects_empty
                      else if x \<in> set DEFAULT_PLUGINS then Some identity_plugin
                      else None),
      matches = (\<lambda>pat p. if pat = ''*.png'' then p = ''a.png'' \<or> p = ''b.png''
                          else if pat = ''d/*'' then p = ''d/x.png'' \<or> p = ''d/y.png'' \<or> p = ''d/sub''
                          else if pat = ''*.gif'' then False
                          else pat = p),
      stack_of = first_line\<rparr>"

definition demo_fs :: fsys where
  "demo_fs = [(''a.png'', File [1, 2]), (''b.png'', File [3]), (''d'', Dir),
              (''d/x.png'', File [7]), (''d/y.png'', File []), (''d/sub'', Dir)]"

definition no_flags :: opts where
  "no_flags = \<lparr>plugin = None, outDir = None, write_flag = False\<rparr>"

definition default_handles :: "plugin list" where
  "default_handles = [identity_plugin, identity_plugin, identity_plugin, identity_plugin]"

text \<open>A second file system, with a file whose name holds a character class, and a
  glob library that reads the class as one: the pattern \<open>d/[x].png\<close> selects
  \<open>d/x.png\<close>.\<close>

definition bracket_env :: env where
  "bracket_env =
     \<lparr>registry = (\<lambda>x. if x = ''increment'' then Some increment else None),
      matches = (\<lambda>pat p. if pat = ''d/*'' then p = ''d/x.png'' \<or> p = ''d/[x].png''
                          else if pat = ''d/[x].png'' then p = ''d/x.png''
                          else pat = p),
      stack_of = first_line\<rparr>"

definition bracket_fs :: fsys where
  "bracket_fs = [(''d/x.png'', File [7]), (''d/[x].png'', File [5])]"

definition in_place_increment :: opts where
  "in_place_increment = \<lparr>plugin = Some (PStr ''increment''), outDir = None, write_flag = True\<rparr>"

section \<open>Properties\<close>

subsection \<open>The plugin resolver\<close>

lemma requirePlugins_resolved:
  "map (registry e) names = map Some use \<Longrightarrow> requirePlugins e names w = (Some use, w)"
proof (induction names arbitrary: use)
  case Nil
  then show ?case by simp
next
  case (Cons x xs)
  then obtain p ps where u: "use = p # ps" "registry e x = Some p" "map (registry e) xs = map Some ps"
    by (cases use) auto
  from Cons.IH [OF u(3)] u show ?case by simp
qed

lemma requirePlugins_unknown:
  "map (registry e) good = map Some ps \<Longrightarrow> registry e x = None \<Longrightarrow>
   requirePlugins e (good @ x # rest) w = (None, process_exit 1 (console_error (unknown_plugin x) w))"
proof (induction good arbitrary: ps)
  case Nil
  then show ?case by simp
next
  case (Cons y ys)
  then obtain q qs where u: "ps = q # qs" "registry e y = Some q" "map (registry e) ys = map Some qs"
    by (cases ps) auto
  from Cons.IH [OF u(3) Cons.prems(2)] u show ?case by simp
qed

lemma all_resolvable:
  "\<forall>x\<in>set names. registry e x \<noteq> None \<Longrightarrow>
   map (registry e) names = map Some (map (\<lambda>x. the (registry e x)) names)"
  by (induction names) auto

lemma pipe_identity: "\<forall>p\<in>set use. \<forall>b. p b = Inr b \<Longrightarrow> pipe use b = Inr b"
  by (induction use) auto

lemma demo_default_plugins:
  "map (registry demo_env) (plugin_names no_flags) = map Some default_handles"
  by (simp add: demo_env_def plugin_names_def no_flags_def DEFAULT_PLUGINS_def default_handles_def)

lemma default_handles_identity: "\<forall>p\<in>set default_handles. \<forall>b. p b = Inr b"
  by (simp add: default_handles_def identity_plugin_def)

text \<open>
  Claim C9. When every requested name can be loaded, the resolver returns the handles
  in the order of the names: the list it returns is, position by position, what the
  registry holds for the names. A list of names given by the caller is used as it is,
  and when the caller gives none the names are gifsicle, jpegtran, optipng, svgo, in
  this order.
\<close>

theorem resolver_keeps_order:
  assumes "\<forall>x\<in>set names. registry e x \<noteq> None"
  shows "(\<exists>use. requirePlugins e names w = (Some use, w) \<and>
                map (registry e) names = map Some use) \<and>
         plugin_names (os\<lparr>plugin := Some (PArr names)\<rparr>) = names \<and>
         plugin_names (os\<lparr>plugin := None\<rparr>) = [''gifsicle'', ''jpegtran'', ''optipng'', ''svgo'']"
proof -
  have "\<exists>use. requirePlugins e names w = (Some use, w) \<and> map (registry e) names = map Some use"
    using requirePlugins_resolved [OF all_resolvable [OF assms]] all_resolvable [OF assms]
    by blast
  moreover have "plugin_names (os\<lparr>plugin := Some (PArr names)\<rparr>) = names"
    by (simp add: plugin_names_def)
  moreover have "plugin_names (os\<lparr>plugin := None\<rparr>) =
      [''gifsicle'', ''jpegtran'', ''optipng'', ''svgo'']"
    by (simp add: plugin_names_def DEFAULT_PLUGINS_def)
  ultimately show ?thesis by blast
qed

theorem resolver_keeps_order_witness:
  "registry demo_env ''svgo'' \<noteq> None \<and> registry demo_env ''increment'' \<noteq> None \<and>
   (\<exists>use. requirePlugins demo_env [''svgo'', ''increment''] (start demo_fs) = (Some use, start demo_fs) \<and>
          map (registry demo_env) [''svgo'', ''increment''] = map Some use \<and>
          use = [identity_plugin, increment]) \<and>
   plugin_names (no_flags\<lparr>plugin := Some (PArr [''svgo'', ''increment''])\<rparr>) = [''svgo'', ''increment''] \<and>
   plugin_names (no_flags\<lparr>plugin := None\<rparr>) = [''gifsicle'', ''jpegtran'', ''optipng'', ''svgo'']"
proof -
  have h: "\<forall>x\<in>set [''svgo'', ''increment'']. registry demo_env x \<noteq> None"
    by (simp add: demo_env_def DEFAULT_PLUGINS_def)
  have r: "map (registry demo_env) [''svgo'', ''increment''] = map Some [identity_plugin, increment]"
    by (simp add: demo_env_def DEFAULT_PLUGINS_def)
  from resolver_keeps_order [OF h, of "start demo_fs" no_flags] h r
  show ?thesis by auto
qed

subsection \<open>The diagnostic for an unknown plugin\<close>

lemma lines_of_nonempty: "lines_of s \<noteq> []"
  by (induction s) (auto split: list.splits)

lemma lines_of_last: "\<forall>c\<in>set a. \<not> is_terminator c \<Longrightarrow> lines_of a = [a]"
  by (induction a) auto

lemma lines_of_line:
  "\<forall>c\<in>set a. \<not> is_terminator c \<Longrightarrow> is_terminator t \<Longrightarrow>
   lines_of (a @ t # r) = (a @ [t]) # lines_of r"
  by (induction a) auto

lemma lines_of_concat:
  "\<forall>l\<in>set ls. \<exists>a t. l = a @ [t] \<and> is_terminator t \<and> (\<forall>c\<in>set a. \<not> is_terminator c) \<Longrightarrow>
   \<forall>c\<in>set z. \<not> is_terminator c \<Longrightarrow>
   lines_of (concat ls @ z) = ls @ [z]"
proof (induction ls)
  case Nil
  then show ?case by (simp add: lines_of_last)
next
  case (Cons l ls)
  then obtain a t where l: "l = a @ [t]" "is_terminator t" "\<forall>c\<in>set a. \<not> is_terminator c"
    by auto
  have "lines_of (concat ls @ z) = ls @ [z]"
    using Cons by simp
  with lines_of_line [OF l(3,2), of "concat ls @ z"] l(1) show ?case by simp
qed

lemma trim_core:
  assumes "\<forall>c\<in>set u. is_space c" and "\<forall>c\<in>set v. is_space c"
    and "s \<noteq> []" and "\<not> is_space (hd s)" and "\<not> is_space (last s)"
  shows "trim (u @ s @ v) = s"
proof -
  have a: "dropWhile is_space (u @ s @ v) = s @ v"
    using assms(1,3,4) by (cases s) simp_all
  obtain r where r: "rev s = last s # r"
    using assms(3) by (cases s rule: rev_cases) auto
  have b: "dropWhile is_space (rev v @ rev s) = rev s"
    unfolding r using assms(2,5) by (subst dropWhile_append2) auto
  show ?thesis
    by (simp add: trim_def a b)
qed

lemma space_terminator: "is_terminator c \<Longrightarrow> is_space c"
  by (auto simp: is_terminator_def is_space_def)

text \<open>For a name without white space the diagnostic is the text of the template
  without its indentation.\<close>

lemma unknown_plugin_text:
  assumes "\<forall>c\<in>set x. \<not> is_space c"
  shows "unknown_plugin x =
     ''Unknown plugin: '' @ x @ [nl, nl] @
     ''Did you forget to install the plugin?'' @ [nl] @
     ''You can install it with:'' @ [nl, nl] @
     ''  $ npm install -g imagemin-'' @ x"
proof -
  let ?l1 = "[tab, tab, tab] @ ''Unknown plugin: '' @ x @ [nl]"
  let ?l2 = "[tab, tab, tab] @ ''Did you forget to install the plugin?'' @ [nl]"
  let ?l3 = "[tab, tab, tab] @ ''You can install it with:'' @ [nl]"
  let ?l4 = "[tab, tab, tab] @ ''  $ npm install -g imagemin-'' @ x @ [nl]"
  let ?ls = "[[nl], ?l1, [nl], ?l2, ?l3, [nl], ?l4]"
  have nt: "\<forall>c\<in>set x. \<not> is_terminator c"
    using assms space_terminator by blast
  have t: "template x = concat ?ls @ [tab, tab]"
    by (simp add: template_def)
  have e1: "\<exists>a t. ?l1 = a @ [t] \<and> is_terminator t \<and> (\<forall>c\<in>set a. \<not> is_terminator c)"
    by (rule exI [of _ "[tab, tab, tab] @ ''Unknown plugin: '' @ x"], rule exI [of _ nl])
       (use nt in \<open>auto simp: is_terminator_def nl_def tab_def\<close>)
  have e4: "\<exists>a t. ?l4 = a @ [t] \<and> is_terminator t \<and> (\<forall>c\<in>set a. \<not> is_terminator c)"
    by (rule exI [of _ "[tab, tab, tab] @ ''  $ npm install -g imagemin-'' @ x"], rule exI [of _ nl])
       (use nt in \<open>auto simp: is_terminator_def nl_def tab_def\<close>)
  have e2: "\<exists>a t. ?l2 = a @ [t] \<and> is_terminator t \<and> (\<forall>c\<in>set a. \<not> is_terminator c)"
    by (rule exI [of _ "[tab, tab, tab] @ ''Did you forget to install the plugin?''"], rule exI [of _ nl])
       (auto simp: is_terminator_def nl_def tab_def)
  have e3: "\<exists>a t. ?l3 = a @ [t] \<and> is_terminator t \<and> (\<forall>c\<in>set a. \<not> is_terminator c)"
    by (rule exI [of _ "[tab, tab, tab] @ ''You can install it with:''"], rule exI [of _ nl])
       (auto simp: is_terminator_def nl_def tab_def)
  have e0: "\<exists>a t. [nl] = a @ [t] \<and> is_terminator t \<and> (\<forall>c\<in>set a. \<not> is_terminator c)"
    by (rule exI [of _ "[]"], rule exI [of _ nl]) (simp add: is_terminator_def nl_def)
  have ls: "lines_of (template x) = ?ls @ [[tab, tab]]"
    unfolding t
    by (rule lines_of_concat) (use e0 e1 e2 e3 e4 in \<open>auto simp: is_terminator_def tab_def\<close>)
  have i: "indents (?ls @ [[tab, tab]]) = [3, 3, 3, 5]"
    by (simp add: indent_of_def is_blank_def is_space_def tab_def nl_def)
  have s: "strip_indent (template x) =
      [nl] @ (''Unknown plugin: '' @ x @ [nl, nl] @
      ''Did you forget to install the plugin?'' @ [nl] @
      ''You can install it with:'' @ [nl, nl] @
      ''  $ npm install -g imagemin-'' @ x) @ [nl, tab, tab]"
    unfolding strip_indent_def ls i
    by (simp add: is_blank_def tab_def nl_def)
  have h: "last (''Unknown plugin: '' @ x @ [nl, nl] @
      ''Did you forget to install the plugin?'' @ [nl] @
      ''You can install it with:'' @ [nl, nl] @
      ''  $ npm install -g imagemin-'' @ x) = (if x = [] then CHR ''-'' else last x)"
    by simp
  show ?thesis
    unfolding unknown_plugin_def s
    by (rule trim_core) (use assms h in \<open>auto simp: is_space_def nl_def tab_def\<close>)
qed

text \<open>
  Claim C8. When a requested name cannot be loaded, and the names before it can, the
  run ends there: the diagnostic for that name is the one thing added to standard
  error, the exit status is 1, and nothing else has happened, whatever the input is:
  no file is read or written, the batch call is not made, standard output is untouched,
  no plugin is skipped and no default takes its place. For a name without white space
  the diagnostic names the plugin and ends with the command that installs it. The same
  holds of the whole program whenever it gets as far as \<open>run\<close>, that is, unless it has
  no input and no pipe.
\<close>

theorem unknown_plugin_is_fatal:
  assumes "plugin_names os = good @ x # rest"
    and "\<forall>y\<in>set good. registry e y \<noteq> None"
    and "registry e x = None"
  shows "run e inp os w = w\<lparr>stderr := stderr w @ [unknown_plugin x], exit_code := Some 1\<rparr> \<and>
         exit_status (run e inp os w) = 1 \<and>
         fs (run e inp os w) = fs w \<and> calls (run e inp os w) = calls w \<and>
         stdout (run e inp os w) = stdout w \<and>
         ((\<forall>c\<in>set x. \<not> is_space c) \<longrightarrow>
            (\<exists>hint. unknown_plugin x =
                    ''Unknown plugin: '' @ x @ hint @ ''$ npm install -g imagemin-'' @ x)) \<and>
         (cli_input \<noteq> [] \<or> \<not> isTTY \<longrightarrow>
            main e cli_input os isTTY stdin w =
              w\<lparr>stderr := stderr w @ [unknown_plugin x], exit_code := Some 1\<rparr>)"
proof -
  have r: "run e i os w = w\<lparr>stderr := stderr w @ [unknown_plugin x], exit_code := Some 1\<rparr>" for i
    using requirePlugins_unknown [OF all_resolvable [OF assms(2)] assms(3)] assms(1)
    by (simp add: run_def process_exit_def console_error_def)
  have m: "cli_input \<noteq> [] \<or> \<not> isTTY \<longrightarrow>
            main e cli_input os isTTY stdin w =
              w\<lparr>stderr := stderr w @ [unknown_plugin x], exit_code := Some 1\<rparr>"
    by (auto simp: main_def r)
  have h: "(\<forall>c\<in>set x. \<not> is_space c) \<longrightarrow>
            (\<exists>hint. unknown_plugin x =
                    ''Unknown plugin: '' @ x @ hint @ ''$ npm install -g imagemin-'' @ x)"
  proof
    assume "\<forall>c\<in>set x. \<not> is_space c"
    from unknown_plugin_text [OF this]
    show "\<exists>hint. unknown_plugin x =
                    ''Unknown plugin: '' @ x @ hint @ ''$ npm install -g imagemin-'' @ x"
      by (intro exI [of _ "[nl, nl] @ ''Did you forget to install the plugin?'' @ [nl] @
                        ''You can install it with:'' @ [nl, nl] @ ''  ''"]) simp
  qed
  from r [of inp] m h show ?thesis
    by (simp add: exit_status_def)
qed

theorem unknown_plugin_is_fatal_witness:
  "plugin_names (no_flags\<lparr>plugin := Some (PArr [''increment'', ''bogus'', ''missing''])\<rparr>) =
     [''increment''] @ ''bogus'' # [''missing''] \<and>
   registry demo_env ''increment'' \<noteq> None \<and>
   registry demo_env ''bogus'' = None \<and>
   stderr (run demo_env (Paths [''a.png''])
            (no_flags\<lparr>plugin := Some (PArr [''increment'', ''bogus'', ''missing''])\<rparr>) (start demo_fs)) =
     [unknown_plugin ''bogus''] \<and>
   unknown_plugin ''bogus'' =
     ''Unknown plugin: bogus'' @ [nl, nl] @ ''Did you forget to install the plugin?'' @ [nl] @
     ''You can install it with:'' @ [nl, nl] @ ''  $ npm install -g imagemin-bogus'' \<and>
   exit_status (run demo_env (Paths [''a.png''])
            (no_flags\<lparr>plugin := Some (PArr [''increment'', ''bogus'', ''missing''])\<rparr>) (start demo_fs)) = 1 \<and>
   stdout (run demo_env (Paths [''a.png''])
            (no_flags\<lparr>plugin := Some (PArr [''increment'', ''bogus'', ''missing''])\<rparr>) (start demo_fs)) = [] \<and>
   fs (run demo_env (Paths [''a.png''])
            (no_flags\<lparr>plugin := Some (PArr [''increment'', ''bogus'', ''missing''])\<rparr>) (start demo_fs)) = demo_fs"
proof -
  let ?os = "no_flags\<lparr>plugin := Some (PArr [''increment'', ''bogus'', ''missing''])\<rparr>"
  have a: "plugin_names ?os = [''increment''] @ ''bogus'' # [''missing'']"
    by (simp add: plugin_names_def)
  have b: "\<forall>y\<in>set [''increment'']. registry demo_env y \<noteq> None"
    by (simp add: demo_env_def)
  have c: "registry demo_env ''bogus'' = None"
    by (simp add: demo_env_def DEFAULT_PLUGINS_def)
  have t: "unknown_plugin ''bogus'' =
     ''Unknown plugin: bogus'' @ [nl, nl] @ ''Did you forget to install the plugin?'' @ [nl] @
     ''You can install it with:'' @ [nl, nl] @ ''  $ npm install -g imagemin-bogus''"
    by code_simp
  from unknown_plugin_is_fatal [OF a b c, of "Paths [''a.png'']" "start demo_fs"]
  have "run demo_env (Paths [''a.png'']) ?os (start demo_fs) =
      (start demo_fs)\<lparr>stderr := stderr (start demo_fs) @ [unknown_plugin ''bogus''],
                      exit_code := Some 1\<rparr>"
    and "exit_status (run demo_env (Paths [''a.png'']) ?os (start demo_fs)) = 1"
    by blast+
  with a c t show ?thesis by (simp add: start_def demo_env_def)
qed

text \<open>
  Claim C10. A buffer piped through standard input, with plugins that all return their
  input unchanged, comes out on standard output as the one thing written there, byte
  for byte.
\<close>

theorem stdin_round_trip:
  assumes "map (registry e) (plugin_names os) = map Some use"
    and "\<forall>p\<in>set use. \<forall>b. p b = Inr b"
  shows "main e [] os False buf (start f) = (start f)\<lparr>stdout := [Raw buf]\<rparr> \<and>
         stdout_bytes (main e [] os False buf (start f)) = buf"
  using requirePlugins_resolved [OF assms(1)] pipe_identity [OF assms(2)]
  by (simp add: main_def run_def imagemin_buffer_def stdout_write_def start_def stdout_bytes_def)

theorem stdin_round_trip_witness:
  "map (registry demo_env) (plugin_names no_flags) = map Some default_handles \<and>
   pipe default_handles [137, 80, 78, 71] = Inr [137, 80, 78, 71] \<and>
   main demo_env [] no_flags False [137, 80, 78, 71] (start demo_fs) =
     (start demo_fs)\<lparr>stdout := [Raw [137, 80, 78, 71]]\<rparr> \<and>
   stdout_bytes (main demo_env [] no_flags False [137, 80, 78, 71] (start demo_fs)) = [137, 80, 78, 71]"
  using stdin_round_trip [OF demo_default_plugins default_handles_identity, of "[137, 80, 78, 71]" demo_fs]
    demo_default_plugins pipe_identity [OF default_handles_identity]
  by (simp add: stdout_bytes_def)

subsection \<open>Paths with write-in-place off\<close>

lemma imagemin_not_pending: "fst (imagemin e ps od use f) \<noteq> Pending"
  by (simp add: imagemin_def Let_def split: option.splits)

text \<open>The run, once the plugins are resolved, in terms of the one result that both
  batch calls have.\<close>

lemma run_default_mode:
  assumes "map (registry e) (plugin_names os) = map Some use"
    and "\<not> write_flag os"
    and "imagemin e ps (outDir os) use (fs w) = (res, ws)"
  shows "run e (Paths ps) os w =
     (let w3 = (if truthy (outDir os) then w\<lparr>spinner := True\<rparr> else w)
                 \<lparr>calls := calls w @ [(ps, outDir os), (ps, outDir os)]\<rparr> in
      case runSingle_settle os res ws w3 of (r, w4) \<Rightarrow>
        (let w5 = aggregate r w4 in
         if exit_code w5 \<noteq> None then w5
         else (case runSingle_settle os res ws w5 of (r2, w6) \<Rightarrow> drop_promise r2 w6)))"
  using assms by (simp add: run_def runSingle_def requirePlugins_resolved Let_def)

lemma default_mode_calls:
  assumes "map (registry e) (plugin_names os) = map Some use"
    and "\<not> write_flag os"
  shows "calls (run e (Paths ps) os w) = calls w @ [(ps, outDir os), (ps, outDir os)]"
proof -
  obtain res ws where i: "imagemin e ps (outDir os) use (fs w) = (res, ws)"
    by (cases "imagemin e ps (outDir os) use (fs w)")
  show ?thesis
    unfolding run_default_mode [OF assms i]
    by (auto simp: Let_def runSingle_settle_def runSingle_then_def aggregate_def drop_promise_def
        catch_rethrow_def console_log_def process_exit_def console_error_def stdout_write_def
        split: settled.splits jsval.splits list.splits prod.splits)
qed

lemma default_mode_writes:
  assumes "map (registry e) (plugin_names os) = map Some use"
    and "\<not> write_flag os"
    and "truthy (outDir os)"
  shows "fs (run e (Paths ps) os (start f)) =
           apply_writes (snd (imagemin e ps (outDir os) use f))
             (apply_writes (snd (imagemin e ps (outDir os) use f)) f)"
proof -
  obtain res ws where i: "imagemin e ps (outDir os) use (fs (start f)) = (res, ws)"
    by (cases "imagemin e ps (outDir os) use (fs (start f))")
  then have s: "snd (imagemin e ps (outDir os) use f) = ws"
    by (simp add: start_def)
  show ?thesis
    unfolding run_default_mode [OF assms(1,2) i] s using assms(3)
    by (auto simp: Let_def runSingle_settle_def runSingle_then_def aggregate_def drop_promise_def
        catch_rethrow_def console_log_def start_def
        split: settled.splits jsval.splits prod.splits)
qed

lemma handleFile_ok:
  "read_file f x = Some d \<Longrightarrow> pipe use d = Inr out \<Longrightarrow>
   handleFile use od f x = Inr \<lparr>file_data = out, file_path = destination od x\<rparr>"
  by (simp add: handleFile_def)

lemma handleFile_path: "handleFile use od f x = Inr r \<Longrightarrow> file_path r = destination od x"
  by (auto simp: handleFile_def split: option.splits sum.splits)

lemma destination_falsy: "\<not> truthy od \<Longrightarrow> destination od x = None"
  by (cases od) (auto simp: destination_def)

lemma all_valid:
  "\<forall>x\<in>set xs. \<exists>d out. read_file f x = Some d \<and> pipe use d = Inr out \<Longrightarrow>
   first_error (map (handleFile use od f) xs) = None \<and>
   length (successes (map (handleFile use od f) xs)) = length xs"
  by (induction xs) (auto simp: handleFile_def)

lemma no_destination_no_writes:
  "\<not> truthy od \<Longrightarrow> file_writes (successes (map (handleFile use od f) xs)) = []"
proof (induction xs)
  case Nil
  then show ?case by (simp add: file_writes_def)
next
  case (Cons x xs)
  show ?case
  proof (cases "handleFile use od f x")
    case (Inl a)
    with Cons show ?thesis by simp
  next
    case (Inr r)
    from handleFile_path [OF Inr] destination_falsy [OF Cons.prems]
    have "file_path r = None" by simp
    with Cons Inr show ?thesis by (simp add: file_writes_def)
  qed
qed

lemma imagemin_single:
  assumes "globby e ps f = [x]" and "read_file f x = Some d" and "pipe use d = Inr out"
  shows "imagemin e ps od use f =
     (Fulfilled [\<lparr>file_data = out, file_path = destination od x\<rparr>],
      file_writes [\<lparr>file_data = out, file_path = destination od x\<rparr>])"
  using assms by (simp add: imagemin_def handleFile_ok)

lemma imagemin_many:
  assumes "\<not> truthy od"
    and "2 \<le> length (globby e ps f)"
    and "\<forall>x\<in>set (globby e ps f). \<exists>d out. read_file f x = Some d \<and> pipe use d = Inr out"
  shows "\<exists>files. imagemin e ps od use f = (Fulfilled files, []) \<and> 1 < length files"
proof -
  let ?rs = "map (handleFile use od f) (globby e ps f)"
  from all_valid [OF assms(3)]
  have v: "first_error ?rs = None" "length (successes ?rs) = length (globby e ps f)"
    by auto
  have "imagemin e ps od use f = (Fulfilled (successes ?rs), [])"
    using v(1) no_destination_no_writes [OF assms(1)] by (simp add: imagemin_def)
  moreover have "1 < length (successes ?rs)"
    using v(2) assms(2) by simp
  ultimately show ?thesis by blast
qed

text \<open>One valid file and no output directory: both calls write the bytes, and the
  summary fails on \<open>undefined\<close>.\<close>

lemma default_single:
  assumes "map (registry e) (plugin_names os) = map Some use"
    and "\<not> write_flag os"
    and "\<not> truthy (outDir os)"
    and "globby e ps f = [x]" and "read_file f x = Some d" and "pipe use d = Inr out"
  shows "run e (Paths ps) os (start f) =
     (start f)\<lparr>stdout := [Raw out, Raw out],
               calls := [(ps, outDir os), (ps, outDir os)],
               unhandled := [length_of_undefined]\<rparr>"
proof -
  have n: "destination (outDir os) x = None"
    using assms(3) by (simp add: destination_falsy)
  have i: "imagemin e ps (outDir os) use (fs (start f)) =
      (Fulfilled [\<lparr>file_data = out, file_path = None\<rparr>], [])"
    using imagemin_single [OF assms(4,5,6), of "outDir os"] n
    by (simp add: start_def file_writes_def)
  show ?thesis
    unfolding run_default_mode [OF assms(1,2) i] using assms(3)
    by (simp add: Let_def runSingle_settle_def runSingle_then_def aggregate_def drop_promise_def
        catch_rethrow_def stdout_write_def start_def apply_writes_def)
qed

text \<open>Two or more valid files and no output directory: the first callback ends the
  process.\<close>

lemma default_many:
  assumes "map (registry e) (plugin_names os) = map Some use"
    and "\<not> write_flag os"
    and "\<not> truthy (outDir os)"
    and "2 \<le> length (globby e ps f)"
    and "\<forall>x\<in>set (globby e ps f). \<exists>d out. read_file f x = Some d \<and> pipe use d = Inr out"
  shows "run e (Paths ps) os (start f) =
     (start f)\<lparr>stderr := [multiple_files], exit_code := Some 1,
               calls := [(ps, outDir os), (ps, outDir os)]\<rparr>"
proof -
  from imagemin_many [OF assms(3,4,5)] obtain files
    where i: "imagemin e ps (outDir os) use (fs (start f)) = (Fulfilled files, [])"
      and l: "1 < length files"
    by (auto simp: start_def)
  show ?thesis
    unfolding run_default_mode [OF assms(1,2) i] using assms(3) l
    by (auto simp: Let_def runSingle_settle_def runSingle_then_def aggregate_def
        process_exit_def console_error_def start_def apply_writes_def)
qed

lemma runSingle_many:
  assumes "\<not> truthy (outDir os)"
    and "2 \<le> length (globby e ps (fs w))"
    and "\<forall>x\<in>set (globby e ps (fs w)). \<exists>d out. read_file (fs w) x = Some d \<and> pipe use d = Inr out"
  shows "fst (fst (runSingle e use ps os w) v) = Pending"
proof -
  from imagemin_many [OF assms] obtain files
    where i: "imagemin e ps (outDir os) use (fs w) = (Fulfilled files, [])"
      and l: "1 < length files"
    by auto
  show ?thesis
    using assms(1) l
    by (auto simp: runSingle_def i runSingle_settle_def runSingle_then_def Let_def)
qed

lemma demo_png: "globby demo_env [''*.png''] demo_fs = [''a.png'', ''b.png'']"
  by code_simp

lemma demo_a: "globby demo_env [''a.png''] demo_fs = [''a.png'']"
  by code_simp

lemma demo_gif: "globby demo_env [''*.gif''] demo_fs = []"
  by code_simp

lemma demo_read_a: "read_file demo_fs ''a.png'' = Some [1, 2]"
  by (simp add: read_file_def demo_fs_def)

lemma demo_read_b: "read_file demo_fs ''b.png'' = Some [3]"
  by (simp add: read_file_def demo_fs_def)

lemma demo_pipe: "pipe default_handles b = Inr b"
  by (rule pipe_identity [OF default_handles_identity])

lemma demo_png_valid:
  "\<forall>x\<in>set (globby demo_env [''*.png''] demo_fs).
     \<exists>d out. read_file demo_fs x = Some d \<and> pipe default_handles d = Inr out"
  by (simp add: demo_png demo_read_a demo_read_b demo_pipe)

lemma demo_build_a: "destination (Some ''build'') ''a.png'' = Some ''build/a.png''"
  by code_simp

lemma demo_build_b: "destination (Some ''build'') ''b.png'' = Some ''build/b.png''"
  by code_simp

lemma demo_build:
  "imagemin demo_env [''*.png''] (Some ''build'') default_handles demo_fs =
     (Fulfilled [\<lparr>file_data = [1, 2], file_path = Some ''build/a.png''\<rparr>,
                 \<lparr>file_data = [3], file_path = Some ''build/b.png''\<rparr>],
      [(''build/a.png'', [1, 2]), (''build/b.png'', [3])])"
  by (simp add: imagemin_def demo_png handleFile_def demo_read_a demo_read_b demo_pipe
      file_writes_def demo_build_a demo_build_b)

lemma no_flags_simps:
  "\<not> write_flag no_flags" "\<not> truthy (outDir no_flags)" "outDir no_flags = None"
  by (simp_all add: no_flags_def)

text \<open>
  Claim C1. For one valid input file and no output directory, standard output should
  hold the output of the plugin chain on the file's bytes and nothing more. The program
  does not do that: on the file \<open>a.png\<close> with the bytes 1, 2 and the default plugins,
  which return them unchanged, standard output ends up holding 1, 2, 1, 2. Nothing
  but raw bytes is written there.
\<close>

theorem single_file_stdout_doubled:
  "pipe default_handles [1, 2] = Inr [1, 2] \<and>
   stdout (main demo_env [''a.png''] no_flags False [] (start demo_fs)) = [Raw [1, 2], Raw [1, 2]] \<and>
   stdout_bytes (main demo_env [''a.png''] no_flags False [] (start demo_fs)) = [1, 2, 1, 2]"
  using default_single [OF demo_default_plugins no_flags_simps(1,2) demo_a demo_read_a demo_pipe]
  by (simp add: main_def demo_pipe stdout_bytes_def start_def)

text \<open>
  Claim C2. With a list of paths or globs, write-in-place off and the plugins resolved,
  \<open>run\<close> calls \<open>runSingle\<close> twice on the same input and the same output directory:
  the log of batch calls holds that call twice and nothing else. So every effect of the
  batch call happens twice: with an output directory its writes land twice, and with no
  output directory and one valid file the bytes that the chain makes of the file are
  written to standard output twice.
\<close>

theorem runSingle_invoked_twice:
  assumes "map (registry e) (plugin_names os) = map Some use"
    and "\<not> write_flag os"
  shows "calls (run e (Paths ps) os (start f)) = [(ps, outDir os), (ps, outDir os)] \<and>
         (truthy (outDir os) \<longrightarrow>
            fs (run e (Paths ps) os (start f)) =
              apply_writes (snd (imagemin e ps (outDir os) use f))
                (apply_writes (snd (imagemin e ps (outDir os) use f)) f)) \<and>
         (\<not> truthy (outDir os) \<and> globby e ps f = [x] \<and> read_file f x = Some d \<and>
          pipe use d = Inr out \<longrightarrow>
            stdout (run e (Paths ps) os (start f)) = [Raw out, Raw out])"
proof (intro conjI impI)
  show "calls (run e (Paths ps) os (start f)) = [(ps, outDir os), (ps, outDir os)]"
    using default_mode_calls [OF assms, of ps "start f"] by (simp add: start_def)
next
  assume "truthy (outDir os)"
  then show "fs (run e (Paths ps) os (start f)) =
          apply_writes (snd (imagemin e ps (outDir os) use f))
            (apply_writes (snd (imagemin e ps (outDir os) use f)) f)"
    by (rule default_mode_writes [OF assms])
next
  assume a: "\<not> truthy (outDir os) \<and> globby e ps f = [x] \<and> read_file f x = Some d \<and>
          pipe use d = Inr out"
  then show "stdout (run e (Paths ps) os (start f)) = [Raw out, Raw out]"
    using default_single [OF assms, of ps f x d out] by simp
qed

theorem runSingle_invoked_twice_witness:
  "calls (run demo_env (Paths [''b.png'']) (no_flags\<lparr>plugin := Some (PStr ''increment'')\<rparr>)
      (start demo_fs)) = [([''b.png''], None), ([''b.png''], None)] \<and>
   pipe [increment] [3] = Inr [4] \<and>
   stdout (run demo_env (Paths [''b.png'']) (no_flags\<lparr>plugin := Some (PStr ''increment'')\<rparr>)
      (start demo_fs)) = [Raw [4], Raw [4]] \<and>
   fs (run demo_env (Paths [''*.png'']) (no_flags\<lparr>outDir := Some ''build''\<rparr>) (start demo_fs)) =
     [(''build/b.png'', File [3]), (''build/a.png'', File [1, 2]),
      (''build/b.png'', File [3]), (''build/a.png'', File [1, 2])] @ demo_fs"
proof -
  let ?os = "no_flags\<lparr>plugin := Some (PStr ''increment'')\<rparr>"
  let ?ob = "no_flags\<lparr>outDir := Some ''build''\<rparr>"
  have p: "map (registry demo_env) (plugin_names ?os) = map Some [increment]"
    by (simp add: demo_env_def plugin_names_def no_flags_def)
  have w: "\<not> write_flag ?os" "\<not> truthy (outDir ?os)" "outDir ?os = None"
    by (simp_all add: no_flags_def)
  have g: "globby demo_env [''b.png''] demo_fs = [''b.png'']"
    by code_simp
  have i: "pipe [increment] [3] = Inr [4]"
    by (simp add: increment_def)
  have pb: "map (registry demo_env) (plugin_names ?ob) = map Some default_handles"
    using demo_default_plugins by (simp add: plugin_names_def no_flags_def)
  have wb: "\<not> write_flag ?ob" "truthy (outDir ?ob)" "outDir ?ob = Some ''build''"
    by (simp_all add: no_flags_def)
  have ws: "snd (imagemin demo_env [''*.png''] (Some ''build'') default_handles demo_fs) =
      [(''build/a.png'', [1, 2]), (''build/b.png'', [3])]"
    by (simp add: demo_build)
  from runSingle_invoked_twice [OF p w(1), of "[''b.png'']" demo_fs "''b.png''" "[3]" "[4]"]
    runSingle_invoked_twice [OF pb wb(1), of "[''*.png'']" demo_fs]
    w g i wb ws demo_read_b
  show ?thesis
    by (simp add: apply_writes_def write_file_def)
qed

text \<open>
  Claim C4. Two or more valid input files and no output directory (write-in-place off,
  so that standard output is where the result would go): the diagnostic about several
  files is the one thing written to standard error, the exit status is 1, and standard
  output stays empty.
\<close>

theorem multiple_files_to_stdout:
  assumes "map (registry e) (plugin_names os) = map Some use"
    and "\<not> write_flag os"
    and "\<not> truthy (outDir os)"
    and "2 \<le> length (globby e ps f)"
    and "\<forall>x\<in>set (globby e ps f). \<exists>d out. read_file f x = Some d \<and> pipe use d = Inr out"
  shows "stderr (run e (Paths ps) os (start f)) = [multiple_files] \<and>
         exit_status (run e (Paths ps) os (start f)) = 1 \<and>
         stdout (run e (Paths ps) os (start f)) = [] \<and>
         fs (run e (Paths ps) os (start f)) = f"
  unfolding default_many [OF assms]
  by (simp add: start_def exit_status_def)

theorem multiple_files_to_stdout_witness:
  "length (globby demo_env [''*.png''] demo_fs) = 2 \<and>
   stderr (run demo_env (Paths [''*.png'']) no_flags (start demo_fs)) =
     [''Cannot write multiple files to stdout, specify a `--out-dir`''] \<and>
   exit_status (run demo_env (Paths [''*.png'']) no_flags (start demo_fs)) = 1 \<and>
   stdout (run demo_env (Paths [''*.png'']) no_flags (start demo_fs)) = [] \<and>
   fs (run demo_env (Paths [''*.png'']) no_flags (start demo_fs)) = demo_fs"
proof -
  have l: "2 \<le> length (globby demo_env [''*.png''] demo_fs)"
    by (simp add: demo_png)
  from multiple_files_to_stdout [OF demo_default_plugins no_flags_simps(1,2) l demo_png_valid]
  show ?thesis by (simp add: demo_png multiple_files_def)
qed

text \<open>
  Claim C5, as the program has it. With write-in-place off and the plugins resolved,
  whenever the batch call succeeds and the guard against several files on standard
  output does not end the process (an output directory is set, or at most one file
  matched), the promise of \<open>runSingle\<close> is fulfilled with \<open>undefined\<close>. The summary is
  then not printed: reading \<open>results.length\<close> throws a \<open>TypeError\<close>, which the handler
  throws again, and it is the one rejection left unhandled. \<open>process.exit\<close> is not
  called.
\<close>

theorem aggregation_type_error:
  assumes "map (registry e) (plugin_names os) = map Some use"
    and "\<not> write_flag os"
    and "fst (imagemin e ps (outDir os) use f) = Fulfilled files"
    and "truthy (outDir os) \<or> length files \<le> 1"
  shows "(\<forall>v. fst (fst (runSingle e use ps os (start f)) v) = Fulfilled Undefined) \<and>
         unhandled (run e (Paths ps) os (start f)) = [length_of_undefined] \<and>
         (\<forall>n. Text (summary n) \<notin> set (stdout (run e (Paths ps) os (start f)))) \<and>
         exit_code (run e (Paths ps) os (start f)) = None"
proof -
  obtain ws where i: "imagemin e ps (outDir os) use (fs (start f)) = (Fulfilled files, ws)"
    using assms(3) by (cases "imagemin e ps (outDir os) use f") (simp add: start_def)
  have p: "\<And>v. fst (runSingle_settle os (Fulfilled files) ws v) = Fulfilled Undefined"
    using assms(4)
    by (auto simp: runSingle_settle_def runSingle_then_def Let_def split: list.splits)
  have r: "\<forall>v. fst (fst (runSingle e use ps os (start f)) v) = Fulfilled Undefined"
    using i p by (simp add: runSingle_def)
  have rest: "unhandled (run e (Paths ps) os (start f)) = [length_of_undefined] \<and>
         (\<forall>n. Text (summary n) \<notin> set (stdout (run e (Paths ps) os (start f)))) \<and>
         exit_code (run e (Paths ps) os (start f)) = None"
    unfolding run_default_mode [OF assms(1,2) i] using assms(4)
    by (auto simp: Let_def runSingle_settle_def runSingle_then_def aggregate_def drop_promise_def
        catch_rethrow_def stdout_write_def start_def split: list.splits)
  from r rest show ?thesis by blast
qed

theorem aggregation_type_error_witness:
  "fst (imagemin demo_env [''*.png''] (Some ''build'') default_handles demo_fs) =
     Fulfilled [\<lparr>file_data = [1, 2], file_path = Some ''build/a.png''\<rparr>,
                \<lparr>file_data = [3], file_path = Some ''build/b.png''\<rparr>] \<and>
   fst (fst (runSingle demo_env default_handles [''*.png''] (no_flags\<lparr>outDir := Some ''build''\<rparr>)
          (start demo_fs)) (start demo_fs)) = Fulfilled Undefined \<and>
   unhandled (run demo_env (Paths [''*.png'']) (no_flags\<lparr>outDir := Some ''build''\<rparr>) (start demo_fs)) =
     [TypeError ''Cannot read property 'length' of undefined''] \<and>
   Text ''2 images minified'' \<noteq>
     last (Text [] # stdout (run demo_env (Paths [''*.png'']) (no_flags\<lparr>outDir := Some ''build''\<rparr>)
                              (start demo_fs))) \<and>
   exit_code (run demo_env (Paths [''*.png'']) (no_flags\<lparr>outDir := Some ''build''\<rparr>) (start demo_fs)) = None"
proof -
  let ?ob = "no_flags\<lparr>outDir := Some ''build''\<rparr>"
  have pb: "map (registry demo_env) (plugin_names ?ob) = map Some default_handles"
    using demo_default_plugins by (simp add: plugin_names_def no_flags_def)
  have wb: "\<not> write_flag ?ob" "truthy (outDir ?ob)" "outDir ?ob = Some ''build''"
    by (simp_all add: no_flags_def)
  have i: "fst (imagemin demo_env [''*.png''] (Some ''build'') default_handles demo_fs) =
     Fulfilled [\<lparr>file_data = [1, 2], file_path = Some ''build/a.png''\<rparr>,
                \<lparr>file_data = [3], file_path = Some ''build/b.png''\<rparr>]"
    by (simp add: demo_build)
  have s: "summary 2 = ''2 images minified''"
    by code_simp
  have t: "truthy (outDir ?ob) \<or> length [\<lparr>file_data = [1, 2], file_path = Some ''build/a.png''\<rparr>,
                \<lparr>file_data = [3::8 word], file_path = Some ''build/b.png''\<rparr>] \<le> 1"
    using wb by simp
  have i': "fst (imagemin demo_env [''*.png''] (outDir ?ob) default_handles demo_fs) =
     Fulfilled [\<lparr>file_data = [1, 2], file_path = Some ''build/a.png''\<rparr>,
                \<lparr>file_data = [3], file_path = Some ''build/b.png''\<rparr>]"
    by (simp add: wb(3) demo_build)
  from aggregation_type_error [OF pb wb(1) i' t]
  have a: "\<forall>v. fst (fst (runSingle demo_env default_handles [''*.png''] ?ob (start demo_fs)) v) =
           Fulfilled Undefined"
    and b: "unhandled (run demo_env (Paths [''*.png'']) ?ob (start demo_fs)) = [length_of_undefined]"
    and c: "\<forall>n. Text (summary n) \<notin> set (stdout (run demo_env (Paths [''*.png'']) ?ob (start demo_fs)))"
    and d: "exit_code (run demo_env (Paths [''*.png'']) ?ob (start demo_fs)) = None"
    by blast+
  from c have "Text (summary 2) \<notin> set (stdout (run demo_env (Paths [''*.png'']) ?ob (start demo_fs)))"
    by blast
  then have c': "Text ''2 images minified'' \<noteq>
     last (Text [] # stdout (run demo_env (Paths [''*.png'']) ?ob (start demo_fs)))"
    unfolding s
    by (cases "stdout (run demo_env (Paths [''*.png'']) ?ob (start demo_fs)) = []")
       (auto dest: last_in_set)
  from i a b c' d show ?thesis
    by (simp add: length_of_undefined_def)
qed

text \<open>
  The claim C5 as it was stated fails where the guard ends the process: with the two
  files of \<open>*.png\<close> and no output directory the promise of \<open>runSingle\<close> never settles,
  no \<open>TypeError\<close> is thrown, no rejection is left unhandled, and the exit status is 1.
\<close>

theorem type_error_counterexample:
  "fst (fst (runSingle demo_env default_handles [''*.png''] no_flags (start demo_fs)) (start demo_fs))
     = Pending \<and>
   unhandled (run demo_env (Paths [''*.png'']) no_flags (start demo_fs)) = [] \<and>
   exit_code (run demo_env (Paths [''*.png'']) no_flags (start demo_fs)) = Some 1"
proof -
  have l: "2 \<le> length (globby demo_env [''*.png''] demo_fs)"
    by (simp add: demo_png)
  have f: "fs (start demo_fs) = demo_fs"
    by (simp add: start_def)
  have "fst (fst (runSingle demo_env default_handles [''*.png''] no_flags (start demo_fs))
          (start demo_fs)) = Pending"
    by (rule runSingle_many [where w = "start demo_fs", unfolded f,
          OF no_flags_simps(2) l demo_png_valid])
  then show ?thesis
    unfolding default_many [OF demo_default_plugins no_flags_simps(1,2) l demo_png_valid]
    by (simp add: start_def)
qed

subsection \<open>Paths\<close>

lemma split_slash_nonempty: "split_slash x \<noteq> []"
  by (induction x) (auto split: list.splits)

lemma join_split: "join_slash (split_slash x) = x"
proof (induction x)
  case Nil
  then show ?case by simp
next
  case (Cons c cs)
  show ?case
  proof (cases "c = slash")
    case True
    with Cons show ?thesis
      by (cases "split_slash cs") (simp_all add: split_slash_nonempty)
  next
    case False
    obtain s ss where s: "split_slash cs = s # ss"
      using split_slash_nonempty [of cs] by (cases "split_slash cs") auto
    with Cons False show ?thesis
      by (cases ss) simp_all
  qed
qed

lemma split_no_slash: "s \<in> set (split_slash x) \<Longrightarrow> slash \<notin> set s"
proof (induction x arbitrary: s)
  case Nil
  then show ?case by simp
next
  case (Cons c cs)
  then show ?case
    by (cases "split_slash cs") (auto split: if_splits)
qed

lemma join_slash_snoc: "ss \<noteq> [] \<Longrightarrow> join_slash (ss @ [b]) = join_slash ss @ slash # b"
proof (induction ss rule: join_slash.induct)
  case 1
  then show ?case by simp
next
  case (2 s)
  then show ?case by simp
next
  case (3 s v va)
  then show ?case by simp
qed

lemma split_slash_append:
  "slash \<notin> set a \<Longrightarrow> split_slash (a @ slash # r) = a # split_slash r"
  by (induction a) auto

lemma split_slash_segment: "slash \<notin> set a \<Longrightarrow> split_slash a = [a]"
  by (induction a) auto

lemma fold_plain:
  "list_all (\<lambda>s. s \<noteq> [] \<and> s \<noteq> ''.'' \<and> s \<noteq> ''..'') segs \<Longrightarrow>
   foldl (norm_step a) acc segs = acc @ segs"
  by (induction segs arbitrary: acc) (simp_all add: norm_step_def)

lemma join_slash_ends:
  "segs \<noteq> [] \<Longrightarrow> \<forall>s\<in>set segs. s \<noteq> [] \<and> slash \<notin> set s \<Longrightarrow>
   join_slash segs \<noteq> [] \<and> hd (join_slash segs) \<noteq> slash \<and> last (join_slash segs) \<noteq> slash"
proof (induction segs rule: join_slash.induct)
  case 1
  then show ?case by simp
next
  case (2 s)
  then have "s \<noteq> []" "slash \<notin> set s" by auto
  then have "hd s \<noteq> slash" "last s \<noteq> slash"
    by (metis hd_in_set, metis last_in_set)
  with \<open>s \<noteq> []\<close> show ?case by simp
next
  case (3 s v va)
  then have "s \<noteq> []" "slash \<notin> set s" by auto
  then have "hd s \<noteq> slash" by (metis hd_in_set)
  with 3 \<open>s \<noteq> []\<close> show ?case by simp
qed

lemma plain_ends:
  assumes "plain_path x"
  shows "x \<noteq> [] \<and> hd x \<noteq> slash \<and> last x \<noteq> slash"
proof -
  have "\<forall>s\<in>set (split_slash x). s \<noteq> [] \<and> slash \<notin> set s"
    using assms split_no_slash [of _ x] by (auto simp: plain_path_def list_all_iff)
  from join_slash_ends [OF split_slash_nonempty this] show ?thesis
    by (simp add: join_split)
qed

lemma normalize_plain:
  assumes "plain_path x"
  shows "normalize x = x"
  using plain_ends [OF assms] assms
  by (simp add: normalize_def Let_def fold_plain plain_path_def join_split)


lemma basename_last:
  assumes "b \<noteq> []" and "slash \<notin> set b"
  shows "basename (p @ slash # b) = b" and "basename b = b"
proof -
  have h: "hd (rev b) \<noteq> slash"
    using assms by (metis hd_rev last_in_set)
  have r: "rev b \<noteq> []" using assms by simp
  have d: "dropWhile (\<lambda>x. x = slash) (rev b @ r') = rev b @ r'" for r'
    using h r by (cases "rev b") auto
  have t: "takeWhile (\<lambda>x. x \<noteq> slash) (rev b @ slash # r') = rev b" for r'
    using assms(2) by (subst takeWhile_append2) auto
  show "basename (p @ slash # b) = b"
    using d [of "slash # rev p"] t [of "rev p"] by (simp add: basename_def)
  have tw: "takeWhile (\<lambda>x. x \<noteq> slash) (rev b) = rev b"
    using assms(2) by auto
  have e: "dropWhile (\<lambda>x. x = slash) (rev b) = rev b"
    using d [of "[]"] by simp
  show "basename b = b"
    unfolding basename_def e tw by simp
qed

lemma dirname_parent:
  assumes "p \<noteq> []" and "hd p \<noteq> slash" and "b \<noteq> []" and "slash \<notin> set b"
  shows "dirname (p @ slash # b) = p"
proof -
  obtain c cs where p: "p = c # cs" using assms(1) by (cases p) auto
  have c: "c \<noteq> slash" using assms(2) p by simp
  have h: "hd (rev b) \<noteq> slash"
    using assms(3,4) by (metis hd_rev last_in_set)
  have d: "dropWhile (\<lambda>x. x = slash) (rev b @ slash # rev cs) = rev b @ slash # rev cs"
    using h assms(3) by (cases "rev b") auto
  have w: "dropWhile (\<lambda>x. x \<noteq> slash) (rev b @ slash # rev cs) = slash # rev cs"
    using assms(4) by (subst dropWhile_append2) auto
  show ?thesis
    using c by (simp add: dirname_def p d w Let_def)
qed

lemma dirname_single:
  assumes "b \<noteq> []" and "slash \<notin> set b"
  shows "dirname b = ''.''"
proof -
  obtain c cs where b: "b = c # cs" using assms(1) by (cases b) auto
  have "slash \<notin> set (dropWhile (\<lambda>x. x = slash) (rev cs))"
    using assms(2) b by (auto dest: set_dropWhileD)
  then show ?thesis
    using assms(2) b by (auto simp: dirname_def Let_def)
qed

text \<open>A plain path is rebuilt from its directory and its last segment.\<close>

lemma plain_path_rebuilt:
  assumes "plain_path x"
  shows "path_join (dirname x) (basename x) = x"
proof -
  let ?segs = "split_slash x"
  have all: "\<forall>s\<in>set ?segs. s \<noteq> [] \<and> slash \<notin> set s"
    using assms split_no_slash [of _ x] by (auto simp: plain_path_def list_all_iff)
  obtain ss b where sb: "?segs = ss @ [b]"
    using split_slash_nonempty [of x] by (cases ?segs rule: rev_cases) auto
  have b: "b \<noteq> []" "slash \<notin> set b"
    using all sb by auto
  show ?thesis
  proof (cases "ss = []")
    case True
    then have x: "x = b"
      using join_split [of x] sb by simp
    have "split_slash (''.'' @ slash # b) = ''.'' # split_slash b"
      by (rule split_slash_append) (simp add: slash_def)
    moreover have "list_all (\<lambda>s. s \<noteq> [] \<and> s \<noteq> ''.'' \<and> s \<noteq> ''..'') (split_slash b)"
      using assms x by (simp add: plain_path_def)
    moreover have "join_slash (split_slash b) = b" by (rule join_split)
    moreover have "last b \<noteq> slash" using b by (metis last_in_set)
    ultimately have "normalize (''.'' @ slash # b) = b"
      using b(1) by (simp add: normalize_def Let_def fold_plain norm_step_def slash_def)
    then show ?thesis
      using b by (simp add: x dirname_single basename_last(2) path_join_def)
  next
    case False
    let ?p = "join_slash ss"
    have x: "x = ?p @ slash # b"
      using join_split [of x] sb join_slash_snoc [OF False, of b] by simp
    have "\<forall>s\<in>set ss. s \<noteq> [] \<and> slash \<notin> set s"
      using all sb by auto
    from join_slash_ends [OF False this] have p: "?p \<noteq> []" "hd ?p \<noteq> slash"
      by auto
    have "dirname x = ?p"
      unfolding x by (rule dirname_parent [OF p b])
    moreover have "basename x = b"
      unfolding x by (rule basename_last(1) [OF b])
    ultimately show ?thesis
      using p(1) b(1) normalize_plain [OF assms] x by (simp add: path_join_def)
  qed
qed

subsection \<open>Write-in-place\<close>

lemma dirname_nonempty: "dirname x \<noteq> []"
  by (cases x) (simp_all add: dirname_def Let_def)

lemma settle_in_place:
  "res \<noteq> Pending \<Longrightarrow>
   runSingle_settle (in_place x) res ws v =
     (then_value (\<lambda>files. Undefined) res, v\<lparr>fs := apply_writes ws (fs v)\<rparr>)"
  by (cases res)
     (simp_all add: runSingle_settle_def runSingle_then_def in_place_def dirname_nonempty Let_def)

lemma dispatch_all_calls:
  assumes "\<And>x v. g x v = (P x (fs v), v\<lparr>calls := calls v @ [c x]\<rparr>)"
  shows "dispatch_all g xs w = (map (\<lambda>x. P x (fs w)) xs, w\<lparr>calls := calls w @ map c xs\<rparr>)"
proof (induction xs arbitrary: w)
  case Nil
  then show ?case by simp
next
  case (Cons x xs)
  have "g x w = (P x (fs w), w\<lparr>calls := calls w @ [c x]\<rparr>)"
    by (rule assms)
  then show ?case by (simp add: Cons.IH)
qed

lemma dispatch_all_in_place:
  "dispatch_all (\<lambda>x. runSingle e use [x] (in_place x)) xs w =
     (map (\<lambda>x. runSingle_settle (in_place x)
                 (fst (imagemin e [x] (Some (dirname x)) use (fs w)))
                 (snd (imagemin e [x] (Some (dirname x)) use (fs w)))) xs,
      w\<lparr>calls := calls w @ map (\<lambda>x. ([x], Some (dirname x))) xs\<rparr>)"
  by (rule dispatch_all_calls) (simp add: runSingle_def in_place_def split: prod.splits)

lemma apply_writes_Nil: "apply_writes [] f = f"
  by (simp add: apply_writes_def)

lemma apply_writes_Cons: "apply_writes (a # ws) f = apply_writes ws (write_file a f)"
  by (simp add: apply_writes_def)

lemma apply_writes_append: "apply_writes (a @ b) f = apply_writes b (apply_writes a f)"
  by (simp add: apply_writes_def)

lemma apply_writes_snoc: "apply_writes (ws @ [a]) f = write_file a (apply_writes ws f)"
  by (simp add: apply_writes_def)

lemma settle_all_in_place:
  "exit_code v = None \<Longrightarrow> \<forall>x\<in>set xs. R x \<noteq> Pending \<Longrightarrow>
   settle_all (map (\<lambda>x. runSingle_settle (in_place x) (R x) (W x)) xs) v =
     (map (\<lambda>x. then_value (\<lambda>files. Undefined) (R x)) xs,
      v\<lparr>fs := apply_writes (concat (map W xs)) (fs v)\<rparr>)"
proof (induction xs arbitrary: v)
  case Nil
  then show ?case by (simp add: apply_writes_Nil)
next
  case (Cons x xs)
  have x: "R x \<noteq> Pending" and xs: "\<forall>y\<in>set xs. R y \<noteq> Pending"
    using Cons.prems(2) by auto
  have e: "exit_code (v\<lparr>fs := apply_writes (W x) (fs v)\<rparr>) = None"
    using Cons.prems(1) by simp
  show ?case
    using Cons.IH [OF e xs] Cons.prems(1)
    by (simp add: settle_in_place [OF x] apply_writes_append)
qed

text \<open>The run in write-in-place mode: one batch call per matched file, all made on
  the file system as it is, their writes landing one after the other, and the summary or
  the first rejection at the end.\<close>

lemma run_write_mode:
  assumes "map (registry e) (plugin_names os) = map Some use"
    and "write_flag os"
    and "exit_code w = None"
  shows "run e (Paths ps) os w =
     aggregate
       (then_value arrayify (then_value Array (promise_all
          (map (\<lambda>x. then_value (\<lambda>files. Undefined)
                       (fst (imagemin e [x] (Some (dirname x)) use (fs w))))
               (globby e ps (fs w))))))
       (w\<lparr>spinner := True,
          calls := calls w @ map (\<lambda>x. ([x], Some (dirname x))) (globby e ps (fs w)),
          fs := apply_writes
                  (concat (map (\<lambda>x. snd (imagemin e [x] (Some (dirname x)) use (fs w)))
                               (globby e ps (fs w))))
                  (fs w)\<rparr>)"
proof -
  let ?R = "\<lambda>x. fst (imagemin e [x] (Some (dirname x)) use (fs w))"
  let ?W = "\<lambda>x. snd (imagemin e [x] (Some (dirname x)) use (fs w))"
  let ?w2 = "w\<lparr>spinner := True,
               calls := calls w @ map (\<lambda>x. ([x], Some (dirname x))) (globby e ps (fs w))\<rparr>"
  have n: "\<forall>x\<in>set (globby e ps (fs w)). ?R x \<noteq> Pending"
    by (simp add: imagemin_not_pending)
  have e: "exit_code ?w2 = None"
    using assms(3) by simp
  from settle_all_in_place [OF e n, of ?W]
  show ?thesis
    using assms
    by (simp add: run_def requirePlugins_resolved dispatch_all_in_place)
qed

lemma run_write_start:
  assumes "map (registry e) (plugin_names os) = map Some use"
    and "write_flag os"
  shows "run e (Paths ps) os (start f) =
     aggregate
       (then_value arrayify (then_value Array (promise_all
          (map (\<lambda>x. then_value (\<lambda>files. Undefined)
                       (fst (imagemin e [x] (Some (dirname x)) use f)))
               (globby e ps f)))))
       ((start f)\<lparr>spinner := True,
          calls := map (\<lambda>x. ([x], Some (dirname x))) (globby e ps f),
          fs := apply_writes
                  (concat (map (\<lambda>x. snd (imagemin e [x] (Some (dirname x)) use f))
                               (globby e ps f)))
                  f\<rparr>)"
proof -
  have s: "exit_code (start f) = None" "fs (start f) = f" "calls (start f) = []"
    by (simp_all add: start_def)
  from run_write_mode [OF assms s(1), of ps] show ?thesis
    by (simp only: s append_Nil)
qed

lemma globby_files: "x \<in> set (globby e ps f) \<Longrightarrow> \<exists>d. read_file f x = Some d"
  by (auto simp: globby_def file_paths_def)

lemma read_file_not_dir: "read_file f x = Some d \<Longrightarrow> map_of f x = Some (File d)"
  by (auto simp: read_file_def split: option.splits entry.splits)

lemma destination_in_place:
  "path_join (dirname x) (basename x) = x \<Longrightarrow> destination (Some (dirname x)) x = Some x"
  by (simp add: destination_def dirname_nonempty)

text \<open>The batch call on one path that selects itself and is its own normal form.\<close>

lemma literal_call:
  assumes "globby e [x] f = [x]" and "path_join (dirname x) (basename x) = x"
  shows "imagemin e [x] (Some (dirname x)) use f =
     (case read_file f x of
        None \<Rightarrow> (Rejected (Failure ''ENOENT''), [])
      | Some d \<Rightarrow>
          (case pipe use d of
             Inl err \<Rightarrow> (Rejected (InFile x err), [])
           | Inr out \<Rightarrow> (Fulfilled [\<lparr>file_data = out, file_path = Some x\<rparr>], [(x, out)])))"
  using assms
  by (simp add: imagemin_def handleFile_def destination_in_place file_writes_def
      split: option.splits sum.splits)

lemma read_write_file:
  "read_file (write_file (x, d) f) y = (if y = x then Some d else read_file f y)"
  by (simp add: read_file_def write_file_def)

text \<open>Reading after a list of writes in which a path is written with one value
  only.\<close>

lemma read_after_writes:
  "(k, v) \<in> set ws \<Longrightarrow> \<forall>v'. (k, v') \<in> set ws \<longrightarrow> v' = v \<Longrightarrow>
   read_file (apply_writes ws g) k = Some v"
proof (induction ws rule: rev_induct)
  case Nil
  then show ?case by simp
next
  case (snoc a ws)
  obtain k' v' where a: "a = (k', v')" by (cases a)
  show ?case
  proof (cases "k' = k")
    case True
    have "(k, v') \<in> set (ws @ [a])"
      using True a by simp
    with snoc.prems(2) have "v' = v" by blast
    with True show ?thesis
      unfolding a apply_writes_snoc read_write_file by simp
  next
    case False
    have m: "(k, v) \<in> set ws"
      using snoc.prems(1) False a by auto
    have u: "\<forall>v'. (k, v') \<in> set ws \<longrightarrow> v' = v"
      using snoc.prems(2) by auto
    have "read_file (apply_writes ws g) k = Some v"
      by (rule snoc.IH [OF m u])
    with False show ?thesis
      unfolding a apply_writes_snoc read_write_file by simp
  qed
qed

lemma promise_all_fulfilled: "promise_all (map (\<lambda>x. Fulfilled c) xs) = Fulfilled (map (\<lambda>x. c) xs)"
  by (induction xs) auto



lemma aggregate_fs: "fs (aggregate r w) = fs w"
  by (simp add: aggregate_def catch_rethrow_def console_log_def
      split: settled.splits jsval.splits)

lemma aggregate_calls: "calls (aggregate r w) = calls w"
  by (simp add: aggregate_def catch_rethrow_def console_log_def
      split: settled.splits jsval.splits)

lemma aggregate_stderr: "stderr (aggregate r w) = stderr w"
  by (simp add: aggregate_def catch_rethrow_def console_log_def
      split: settled.splits jsval.splits)

text \<open>In write-in-place mode a matched file that the chain accepts is written back,
  whatever happens to the other files.\<close>

lemma write_mode_written:
  assumes "map (registry e) (plugin_names os) = map Some use"
    and "write_flag os"
    and "\<forall>x\<in>set (globby e ps f). globby e [x] f = [x] \<and> path_join (dirname x) (basename x) = x"
    and "x \<in> set (globby e ps f)" and "read_file f x = Some d" and "pipe use d = Inr out"
  shows "read_file (fs (run e (Paths ps) os (start f))) x = Some out"
proof -
  let ?W = "\<lambda>z. snd (imagemin e [z] (Some (dirname z)) use f)"
  let ?ws = "concat (map ?W (globby e ps f))"
  have lit: "\<And>z. z \<in> set (globby e ps f) \<Longrightarrow>
      ?W z = (case read_file f z of None \<Rightarrow> []
              | Some dz \<Rightarrow> (case pipe use dz of Inl err \<Rightarrow> [] | Inr o' \<Rightarrow> [(z, o')]))"
    using assms(3) by (simp add: literal_call split: option.splits sum.splits)
  have "?W x = [(x, out)]"
    using lit [OF assms(4)] assms(5,6) by simp
  then have m: "(x, out) \<in> set ?ws"
    using assms(4) by force
  have u: "\<forall>v'. (x, v') \<in> set ?ws \<longrightarrow> v' = out"
  proof (intro allI impI)
    fix v' assume "(x, v') \<in> set ?ws"
    then obtain z where z: "z \<in> set (globby e ps f)" "(x, v') \<in> set (?W z)"
      by auto
    from z(2) lit [OF z(1)] have "z = x"
      by (auto split: option.splits sum.splits)
    with z(2) \<open>?W x = [(x, out)]\<close> show "v' = out" by simp
  qed
  show ?thesis
    unfolding run_write_start [OF assms(1,2)]
    by (simp add: aggregate_fs read_after_writes [OF m u])
qed

text \<open>Where every matched path selects itself as a pattern and is rebuilt from its
  directory and its last segment (as plain paths are), and the chain accepts every file,
  write-in-place does what it is meant to do: one batch call per matched file, each file
  rewritten at its own path, the summary counting the matched files, exit status 0.\<close>

lemma write_in_place_literal:
  assumes "map (registry e) (plugin_names os) = map Some use"
    and "write_flag os"
    and "\<forall>x\<in>set (globby e ps f). globby e [x] f = [x] \<and> path_join (dirname x) (basename x) = x"
    and "\<forall>x\<in>set (globby e ps f). \<exists>d. read_file f x = Some d \<and> pipe use d = Inr (out x)"
  shows "(\<forall>x\<in>set (globby e ps f). read_file f x \<noteq> None \<and> map_of f x \<noteq> Some Dir) \<and>
         calls (run e (Paths ps) os (start f)) =
           map (\<lambda>x. ([x], Some (dirname x))) (globby e ps f) \<and>
         (\<forall>x\<in>set (globby e ps f). read_file (fs (run e (Paths ps) os (start f))) x = Some (out x)) \<and>
         stdout (run e (Paths ps) os (start f)) = [Text (summary (length (globby e ps f)))] \<and>
         exit_status (run e (Paths ps) os (start f)) = 0"
proof -
  let ?paths = "globby e ps f"
  let ?R = "\<lambda>x. fst (imagemin e [x] (Some (dirname x)) use f)"
  note rw = run_write_start [OF assms(1,2), of ps f]
  have im: "\<And>x. x \<in> set ?paths \<Longrightarrow> imagemin e [x] (Some (dirname x)) use f =
      (Fulfilled [\<lparr>file_data = out x, file_path = Some x\<rparr>], [(x, out x)])"
  proof -
    fix x assume x: "x \<in> set ?paths"
    with assms(4) obtain d where "read_file f x = Some d" "pipe use d = Inr (out x)" by blast
    with literal_call [of e x f use] assms(3) x show "imagemin e [x] (Some (dirname x)) use f =
      (Fulfilled [\<lparr>file_data = out x, file_path = Some x\<rparr>], [(x, out x)])" by simp
  qed
  have files: "\<forall>x\<in>set ?paths. read_file f x \<noteq> None \<and> map_of f x \<noteq> Some Dir"
    using globby_files [of _ e ps f] read_file_not_dir [of f] by fastforce
  have c: "calls (run e (Paths ps) os (start f)) = map (\<lambda>x. ([x], Some (dirname x))) ?paths"
    unfolding rw by (simp add: aggregate_calls start_def)
  have r: "\<forall>x\<in>set ?paths. read_file (fs (run e (Paths ps) os (start f))) x = Some (out x)"
    using write_mode_written [OF assms(1,2,3)] assms(4) by blast
  have "map (\<lambda>x. then_value (\<lambda>files. Undefined) (?R x)) ?paths = map (\<lambda>x. Fulfilled Undefined) ?paths"
    using im by simp
  then have p: "promise_all (map (\<lambda>x. then_value (\<lambda>files. Undefined) (?R x)) ?paths) =
      Fulfilled (map (\<lambda>x. Undefined) ?paths)"
    by (simp only: promise_all_fulfilled)
  have o: "stdout (run e (Paths ps) os (start f)) = [Text (summary (length ?paths))]"
    unfolding rw p by (simp add: aggregate_def console_log_def start_def)
  have x: "exit_status (run e (Paths ps) os (start f)) = 0"
    unfolding rw p by (simp add: exit_status_def aggregate_def console_log_def start_def)
  from files c r o x show ?thesis by blast
qed

lemma summary_values:
  "summary 0 = ''0 images minified''"
  "summary 1 = ''1 image minified''"
  "summary 2 = ''2 images minified''"
  "summary (Suc (Suc 0)) = ''2 images minified''"
  by code_simp+

text \<open>
  Claim C7. In write-in-place mode every matched file should be transformed and written
  back to its own path, and the count should be the number of matched files, with no
  item dropped. The program does not do that for a file whose name holds a glob
  character: each matched path is handed to the batch call as a pattern and expanded
  once more. With the files \<open>d/x.png\<close> (the byte 7) and \<open>d/[x].png\<close> (the byte 5) and a
  plugin that adds 1 to every byte, the glob \<open>d/*\<close> matches both, two calls are made and
  the summary counts 2 images; but the second call, on the pattern \<open>d/[x].png\<close>,
  selects \<open>d/x.png\<close> again, so that \<open>d/[x].png\<close> still holds 5 and not 6 afterwards.
\<close>

theorem matched_file_dropped:
  "globby bracket_env [''d/*''] bracket_fs = [''d/x.png'', ''d/[x].png''] \<and>
   globby bracket_env [''d/[x].png''] bracket_fs = [''d/x.png''] \<and>
   pipe [increment] [5] = Inr [6] \<and>
   calls (run bracket_env (Paths [''d/*'']) in_place_increment (start bracket_fs)) =
     [([''d/x.png''], Some ''d''), ([''d/[x].png''], Some ''d'')] \<and>
   read_file (fs (run bracket_env (Paths [''d/*'']) in_place_increment (start bracket_fs)))
     ''d/[x].png'' = Some [5] \<and>
   read_file (fs (run bracket_env (Paths [''d/*'']) in_place_increment (start bracket_fs)))
     ''d/x.png'' = Some [8] \<and>
   stdout (run bracket_env (Paths [''d/*'']) in_place_increment (start bracket_fs)) =
     [Text ''2 images minified'']"
proof -
  have p: "map (registry bracket_env) (plugin_names in_place_increment) = map Some [increment]"
    by (simp add: bracket_env_def plugin_names_def in_place_increment_def)
  have w: "write_flag in_place_increment"
    by (simp add: in_place_increment_def)
  have g: "globby bracket_env [''d/*''] bracket_fs = [''d/x.png'', ''d/[x].png'']"
    and g1: "globby bracket_env [''d/x.png''] bracket_fs = [''d/x.png'']"
    and g2: "globby bracket_env [''d/[x].png''] bracket_fs = [''d/x.png'']"
    and d: "dirname ''d/x.png'' = ''d''" "dirname ''d/[x].png'' = ''d''"
    and t: "destination (Some ''d'') ''d/x.png'' = Some ''d/x.png''"
    by code_simp+
  have r: "read_file bracket_fs ''d/x.png'' = Some [7]"
    "read_file bracket_fs ''d/[x].png'' = Some [5]"
    by (simp_all add: read_file_def bracket_fs_def)
  have i: "pipe [increment] [7] = Inr [8]" "pipe [increment] [5] = Inr [6]"
    by (simp_all add: increment_def)
  have c: "imagemin bracket_env [''d/x.png''] (Some ''d'') [increment] bracket_fs =
      (Fulfilled [\<lparr>file_data = [8], file_path = Some ''d/x.png''\<rparr>], [(''d/x.png'', [8])])"
    "imagemin bracket_env [''d/[x].png''] (Some ''d'') [increment] bracket_fs =
      (Fulfilled [\<lparr>file_data = [8], file_path = Some ''d/x.png''\<rparr>], [(''d/x.png'', [8])])"
    using imagemin_single [OF g1 r(1) i(1), of "Some ''d''"]
      imagemin_single [OF g2 r(1) i(1), of "Some ''d''"]
    by (simp_all add: t file_writes_def)
  have e: "run bracket_env (Paths [''d/*'']) in_place_increment (start bracket_fs) =
      (start bracket_fs)\<lparr>stdout := [Text ''2 images minified''],
        calls := [([''d/x.png''], Some ''d''), ([''d/[x].png''], Some ''d'')],
        fs := (''d/x.png'', File [8]) # (''d/x.png'', File [8]) # bracket_fs\<rparr>"
    unfolding run_write_start [OF p w] g
    by (simp add: d c aggregate_def console_log_def start_def apply_writes_def write_file_def
        summary_values)
  have "calls (run bracket_env (Paths [''d/*'']) in_place_increment (start bracket_fs)) =
      [([''d/x.png''], Some ''d''), ([''d/[x].png''], Some ''d'')]"
    and "read_file (fs (run bracket_env (Paths [''d/*'']) in_place_increment (start bracket_fs)))
      ''d/[x].png'' = Some [5]"
    and "read_file (fs (run bracket_env (Paths [''d/*'']) in_place_increment (start bracket_fs)))
      ''d/x.png'' = Some [8]"
    and "stdout (run bracket_env (Paths [''d/*'']) in_place_increment (start bracket_fs)) =
      [Text ''2 images minified'']"
    unfolding e by (simp_all add: read_file_def bracket_fs_def)
  with g g2 i(2) show ?thesis by blast
qed





lemma demo_dirname: "dirname ''d/x.png'' = ''d''" "dirname ''d/y.png'' = ''d''"
  by code_simp+













subsection \<open>No match\<close>

text \<open>With write-in-place off a glob that matches nothing makes both batch calls come
  back with no file: no summary is printed, whether an output directory is set or not,
  because the summary fails on \<open>undefined\<close>.\<close>

lemma default_none:
  assumes "map (registry e) (plugin_names os) = map Some use"
    and "\<not> write_flag os"
    and "globby e ps f = []"
  shows "run e (Paths ps) os (start f) =
     (start f)\<lparr>calls := [(ps, outDir os), (ps, outDir os)], unhandled := [length_of_undefined]\<rparr>"
proof -
  have i: "imagemin e ps (outDir os) use (fs (start f)) = (Fulfilled [], [])"
    using assms(3) by (simp add: imagemin_def start_def file_writes_def)
  show ?thesis
    unfolding run_default_mode [OF assms(1,2) i]
    by (simp add: Let_def runSingle_settle_def runSingle_then_def aggregate_def drop_promise_def
        catch_rethrow_def start_def apply_writes_def)
qed

text \<open>In write-in-place mode the same glob gives the summary of an empty batch.\<close>

lemma write_none:
  assumes "map (registry e) (plugin_names os) = map Some use"
    and "write_flag os"
    and "globby e ps f = []"
  shows "run e (Paths ps) os (start f) = (start f)\<lparr>stdout := [Text ''0 images minified'']\<rparr>"
    and "exit_status (run e (Paths ps) os (start f)) = 0"
proof -
  show r: "run e (Paths ps) os (start f) = (start f)\<lparr>stdout := [Text ''0 images minified'']\<rparr>"
    unfolding run_write_start [OF assms(1,2)] assms(3)
    by (simp add: aggregate_def console_log_def start_def apply_writes_def summary_values)
  show "exit_status (run e (Paths ps) os (start f)) = 0"
    unfolding r by (simp add: exit_status_def start_def)
qed

text \<open>
  Claim C6. A glob that matches no file should give a batch that completes, prints
  \<open>0 images minified\<close> and exits with status 0. The program does that in write-in-place
  mode only. With an output directory and write-in-place off, as here with the pattern
  \<open>*.gif\<close> and the directory \<open>build\<close>, nothing is printed on standard output: the
  summary fails on \<open>undefined\<close>, the \<open>TypeError\<close> is left as an unhandled rejection,
  its stack is printed on standard error when the process ends, and the exit status
  is 1.
\<close>

theorem zero_matches_no_summary:
  "globby demo_env [''*.gif''] demo_fs = [] \<and>
   stdout (run demo_env (Paths [''*.gif'']) (no_flags\<lparr>outDir := Some ''build''\<rparr>) (start demo_fs)) = [] \<and>
   unhandled (run demo_env (Paths [''*.gif'']) (no_flags\<lparr>outDir := Some ''build''\<rparr>) (start demo_fs)) =
     [TypeError ''Cannot read property 'length' of undefined''] \<and>
   stderr (at_exit demo_env
     (run demo_env (Paths [''*.gif'']) (no_flags\<lparr>outDir := Some ''build''\<rparr>) (start demo_fs))) =
     [''TypeError: Cannot read property 'length' of undefined''] \<and>
   exit_status (run demo_env (Paths [''*.gif'']) (no_flags\<lparr>outDir := Some ''build''\<rparr>) (start demo_fs)) = 1 \<and>
   stdout (run demo_env (Paths [''*.gif'']) (no_flags\<lparr>write_flag := True\<rparr>) (start demo_fs)) =
     [Text ''0 images minified''] \<and>
   exit_status (run demo_env (Paths [''*.gif'']) (no_flags\<lparr>write_flag := True\<rparr>) (start demo_fs)) = 0"
proof -
  let ?ob = "no_flags\<lparr>outDir := Some ''build''\<rparr>"
  let ?ow = "no_flags\<lparr>write_flag := True\<rparr>"
  have pb: "map (registry demo_env) (plugin_names ?ob) = map Some default_handles"
    and pw: "map (registry demo_env) (plugin_names ?ow) = map Some default_handles"
    using demo_default_plugins by (simp_all add: plugin_names_def no_flags_def)
  have nb: "\<not> write_flag ?ob" and w: "write_flag ?ow"
    by (simp_all add: no_flags_def)
  have s: "stack_of demo_env length_of_undefined =
      ''TypeError: Cannot read property 'length' of undefined''"
    by (simp add: demo_env_def length_of_undefined_def)
  show ?thesis
    unfolding default_none [OF pb nb demo_gif] write_none [OF pw w demo_gif]
    by (simp add: demo_gif start_def exit_status_def at_exit_def s)
       (simp add: length_of_undefined_def)
qed

end
